theory Spec2Isabelle
  imports Main "HOL-Library.Char_ord" "HOL-Library.List_Lexorder"
begin

section \<open>Data model (package models)\<close>

text \<open>
  Go strings are byte sequences and are modelled as \<open>string\<close> (a list of 8-bit
  characters); the comparison \<open><\<close> of Go strings is the bytewise lexicographic order, which
  is the order of \<open>HOL-Library.List_Lexorder\<close> over \<open>HOL-Library.Char_ord\<close>.
  \<open>time.Time\<close> and \<open>time.Duration\<close> are integers (nanoseconds). A Go \<open>error\<close> value
  is either the "file does not exist" error, which \<open>os.IsNotExist\<close> recognises, or any other
  error with its message.
\<close>

type_synonym time = int
type_synonym duration = int

datatype error = ErrNotExist | ErrOther string

record Header =
  Key :: string
  Value :: string
  Enabled :: bool

record Request =
  Method :: string
  URL :: string
  Headers :: "Header list"
  Body :: string

text \<open>
  \<open>Response.Headers\<close> is a Go map, whose zero value is the nil map: \<open>None\<close> is nil and
  \<open>Some m\<close> is an allocated map.
\<close>

record Response =
  StatusCode :: int
  Status :: string
  RespHeaders :: "(string \<rightharpoonup> string) option"
  RespBody :: string
  ResponseTime :: duration
  Error :: string

record Template =
  ID :: string
  Name :: string
  TRequest :: Request
  CreatedAt :: time
  UpdatedAt :: time

record HistoryItem =
  HID :: string
  HRequest :: Request
  HResponse :: Response
  Timestamp :: time

text \<open>\<open>Clone\<close>: a new header slice of the same length with every element copied.\<close>

definition Clone :: "Request \<Rightarrow> Request" where
  "Clone r = (let headers = take (length (Headers r)) (Headers r)
              in \<lparr>Method = Method r, URL = URL r, Headers = headers, Body = Body r\<rparr>)"

section \<open>The store (package storage), by value\<close>

text \<open>
  The operating system and the libraries the store calls are an environment: the functions
  the code calls, with the results they give. \<open>json.Unmarshal\<close> takes the bytes and the
  target it decodes into and gives the error (if any) and the target as it leaves it.
\<close>

record os_env =
  UserHomeDir :: "error + string"
  MkdirAll :: "string \<Rightarrow> nat \<Rightarrow> error option"
  Join :: "string \<Rightarrow> string \<Rightarrow> string"
  ReadFile :: "string \<Rightarrow> error + string"
  WriteFile :: "string \<Rightarrow> string \<Rightarrow> nat \<Rightarrow> error option"
  UnmarshalTemplates :: "string \<Rightarrow> Template list \<Rightarrow> error option \<times> Template list"
  UnmarshalHistory :: "string \<Rightarrow> HistoryItem list \<Rightarrow> error option \<times> HistoryItem list"
  MarshalIndentTemplates :: "Template list \<Rightarrow> string \<Rightarrow> string \<Rightarrow> error + string"
  MarshalIndentHistory :: "HistoryItem list \<Rightarrow> string \<Rightarrow> string \<Rightarrow> error + string"

definition maxHistoryItems :: nat where "maxHistoryItems = 50"
definition appDirName :: string where "appDirName = ''.gopostman''"
definition templatesFile :: string where "templatesFile = ''templates.json''"
definition historyFile :: string where "historyFile = ''history.json''"

record Storage =
  templates :: "Template list"
  history :: "HistoryItem list"
  dataDir :: string

definition IsNotExist :: "error \<Rightarrow> bool" where
  "IsNotExist e = (e = ErrNotExist)"

subsection \<open>Construction and loading\<close>

text \<open>
  The load functions return the store with the target of \<open>json.Unmarshal\<close> as the decoder
  left it, and their error. \<open>NewStorage\<close> calls them as statements: it does not look at
  what they return. The permissions \<open>0755\<close> and \<open>0644\<close> are 493 and 420.
\<close>

definition loadTemplates :: "os_env \<Rightarrow> Storage \<Rightarrow> error option \<times> Storage" where
  "loadTemplates env s =
     (case ReadFile env (Join env (dataDir s) templatesFile) of
        Inl err \<Rightarrow> (if IsNotExist err then (None, s) else (Some err, s))
      | Inr data \<Rightarrow>
          (case UnmarshalTemplates env data (templates s) of
             (e, ts) \<Rightarrow> (e, s\<lparr>templates := ts\<rparr>)))"

definition loadHistory :: "os_env \<Rightarrow> Storage \<Rightarrow> error option \<times> Storage" where
  "loadHistory env s =
     (case ReadFile env (Join env (dataDir s) historyFile) of
        Inl err \<Rightarrow> (if IsNotExist err then (None, s) else (Some err, s))
      | Inr data \<Rightarrow>
          (case UnmarshalHistory env data (history s) of
             (e, hs) \<Rightarrow> (e, s\<lparr>history := hs\<rparr>)))"

definition NewStorage :: "os_env \<Rightarrow> error + Storage" where
  "NewStorage env =
     (case UserHomeDir env of
        Inl err \<Rightarrow> Inl err
      | Inr homeDir \<Rightarrow>
          (let dir = Join env homeDir appDirName
           in case MkdirAll env dir 493 of
                Some err \<Rightarrow> Inl err
              | None \<Rightarrow>
                  (let s = \<lparr>templates = [], history = [], dataDir = dir\<rparr>;
                       s1 = snd (loadTemplates env s);
                       s2 = snd (loadHistory env s1)
                   in Inr s2)))"

subsection \<open>Templates\<close>

definition saveTemplates :: "os_env \<Rightarrow> Storage \<Rightarrow> error option" where
  "saveTemplates env s =
     (case MarshalIndentTemplates env (templates s) [] ''  '' of
        Inl err \<Rightarrow> Some err
      | Inr data \<Rightarrow> WriteFile env (Join env (dataDir s) templatesFile) data 420)"

text \<open>The index at which the loop over \<open>s.templates\<close> first finds the name.\<close>

fun find_name :: "string \<Rightarrow> Template list \<Rightarrow> nat option" where
  "find_name name [] = None"
| "find_name name (t # ts) =
     (if Name t = name then Some 0 else map_option Suc (find_name name ts))"

text \<open>
  \<open>SaveTemplate\<close>: \<open>new_id\<close> and \<open>now\<close> are what \<open>uuid.New\<close> and \<open>time.Now\<close> give.
  \<open>sort.Slice\<close> with the comparison of names is modelled by the insertion sort on the key
  \<open>Name\<close>. The library's sort is not stable: on a store that holds several templates of
  one name the program may leave them in another order than this model does. Nothing proved
  below depends on the order among templates of equal name. As in \<open>AddHistory\<close>, a failed
  write returns the error and the store keeps the change.
\<close>

definition SaveTemplate ::
  "os_env \<Rightarrow> string \<Rightarrow> time \<Rightarrow> string \<Rightarrow> Request \<Rightarrow> Storage \<Rightarrow> (error + Template) \<times> Storage" where
  "SaveTemplate env new_id now name req s =
     (case find_name name (templates s) of
        Some i \<Rightarrow>
          (let ts1 = (templates s)[i := (templates s ! i)\<lparr>TRequest := Clone req\<rparr>];
               ts2 = ts1[i := (ts1 ! i)\<lparr>UpdatedAt := now\<rparr>];
               s1 = s\<lparr>templates := ts2\<rparr>
           in case saveTemplates env s1 of
                Some err \<Rightarrow> (Inl err, s1)
              | None \<Rightarrow> (Inr (ts2 ! i), s1))
      | None \<Rightarrow>
          (let template = \<lparr>ID = new_id, Name = name, TRequest = Clone req,
                            CreatedAt = now, UpdatedAt = now\<rparr>;
               s1 = s\<lparr>templates := templates s @ [template]\<rparr>;
               s2 = s1\<lparr>templates := sort_key Name (templates s1)\<rparr>
           in case saveTemplates env s2 of
                Some err \<Rightarrow> (Inl err, s2)
              | None \<Rightarrow> (Inr template, s2)))"

text \<open>The templates of a store that carry a given name.\<close>

definition named :: "string \<Rightarrow> Storage \<Rightarrow> Template list" where
  "named name s = filter (\<lambda>t. Name t = name) (templates s)"

subsection \<open>History\<close>

definition saveHistory :: "os_env \<Rightarrow> Storage \<Rightarrow> error option" where
  "saveHistory env s =
     (case MarshalIndentHistory env (history s) [] ''  '' of
        Inl err \<Rightarrow> Some err
      | Inr data \<Rightarrow> WriteFile env (Join env (dataDir s) historyFile) data 420)"

text \<open>
  \<open>AddHistory\<close>: the identifier and the time are what \<open>uuid.New\<close> and \<open>time.Now\<close> give
  at this call. The result is the returned item or error, and the store after the call: a
  failed write returns the error and keeps the change in memory.
\<close>

definition AddHistory ::
  "os_env \<Rightarrow> string \<Rightarrow> time \<Rightarrow> Request \<Rightarrow> Response \<Rightarrow> Storage \<Rightarrow> (error + HistoryItem) \<times> Storage" where
  "AddHistory env new_id now req resp s =
     (let item = \<lparr>HID = new_id, HRequest = Clone req, HResponse = resp, Timestamp = now\<rparr>;
          s1 = s\<lparr>history := [item] @ history s\<rparr>;
          s2 = (if length (history s1) > maxHistoryItems
                then s1\<lparr>history := take maxHistoryItems (history s1)\<rparr> else s1)
      in case saveHistory env s2 of
           Some err \<Rightarrow> (Inl err, s2)
         | None \<Rightarrow> (Inr item, s2))"

text \<open>A call of \<open>AddHistory\<close> as data, and a sequence of calls run one after the other.\<close>

record add_call =
  call_id :: string
  call_now :: time
  call_req :: Request
  call_resp :: Response

definition item_of :: "add_call \<Rightarrow> HistoryItem" where
  "item_of c = \<lparr>HID = call_id c, HRequest = Clone (call_req c), HResponse = call_resp c,
               Timestamp = call_now c\<rparr>"

fun add_all :: "os_env \<Rightarrow> add_call list \<Rightarrow> Storage \<Rightarrow> Storage" where
  "add_all env [] s = s"
| "add_all env (c # cs) s =
     add_all env cs (snd (AddHistory env (call_id c) (call_now c) (call_req c) (call_resp c) s))"

section \<open>The request executor (package http)\<close>

text \<open>
  The calls into \<open>net/http\<close> are an environment. \<open>http.NewRequest\<close> either refuses the
  method or the URL with an error, which is the environment's answer \<open>NewRequestCheck\<close>, or
  gives a request with that URL and body, the method (\<open>GET\<close> for the empty one) and an empty
  header. \<open>Do\<close> is the round trip of \<open>httpClient.Do\<close> together with the time that
  \<open>time.Since(startTime)\<close> reads after it. The body of the response is what
  \<open>io.ReadAll\<close> gives for it: the bytes, or an error. \<open>http.Header\<close> is a map from keys
  to lists of values; \<open>Set\<close> and \<open>Get\<close> pass the key through the environment's
  \<open>CanonicalKey\<close> (\<open>textproto.CanonicalMIMEHeaderKey\<close>).
\<close>

type_synonym http_header = "string \<rightharpoonup> string list"

record http_request =
  ReqMethod :: string
  ReqURL :: string
  ReqBody :: "string option"
  ReqHeader :: http_header

record http_response =
  RStatusCode :: int
  RStatus :: string
  RHeader :: http_header
  RBody :: "error + string"

record http_env =
  NewRequestCheck :: "string \<Rightarrow> string \<Rightarrow> error option"
  CanonicalKey :: "string \<Rightarrow> string"
  Do :: "http_request \<Rightarrow> (error + http_response) \<times> duration"

text \<open>\<open>err.Error()\<close>: the message of an error.\<close>

fun err_msg :: "error \<Rightarrow> string" where
  "err_msg ErrNotExist = ''file does not exist''"
| "err_msg (ErrOther m) = m"

definition HasPrefix :: "string \<Rightarrow> string \<Rightarrow> bool" where
  "HasPrefix s p = (length p \<le> length s \<and> take (length p) s = p)"

text \<open>\<open>strings.Join\<close>.\<close>

fun Join_strings :: "string list \<Rightarrow> string \<Rightarrow> string" where
  "Join_strings [] sep = []"
| "Join_strings [x] sep = x"
| "Join_strings (x # y # ys) sep = x @ sep @ Join_strings (y # ys) sep"

definition http_NewRequest ::
  "http_env \<Rightarrow> string \<Rightarrow> string \<Rightarrow> string option \<Rightarrow> error + http_request" where
  "http_NewRequest env method url body =
     (case NewRequestCheck env method url of
        Some err \<Rightarrow> Inl err
      | None \<Rightarrow> Inr \<lparr>ReqMethod = (if method = [] then ''GET'' else method), ReqURL = url,
                     ReqBody = body, ReqHeader = Map.empty\<rparr>)"

definition Header_Set :: "http_env \<Rightarrow> http_header \<Rightarrow> string \<Rightarrow> string \<Rightarrow> http_header" where
  "Header_Set env h key val = h(CanonicalKey env key \<mapsto> [val])"

definition Header_Get :: "http_env \<Rightarrow> http_header \<Rightarrow> string \<Rightarrow> string" where
  "Header_Get env h key =
     (case h (CanonicalKey env key) of
        None \<Rightarrow> []
      | Some v \<Rightarrow> (case v of [] \<Rightarrow> [] | x # _ \<Rightarrow> x))"

text \<open>The loop over \<open>req.Headers\<close>.\<close>

fun add_headers :: "http_env \<Rightarrow> Header list \<Rightarrow> http_header \<Rightarrow> http_header" where
  "add_headers env [] hdr = hdr"
| "add_headers env (h # hs) hdr =
     add_headers env hs
       (if Enabled h \<and> Key h \<noteq> [] then Header_Set env hdr (Key h) (Value h) else hdr)"

text \<open>
  The request as it stands when \<open>Do\<close> is called: the scheme added, the body attached, the
  enabled headers set and the default content type put in.
\<close>

definition outgoing :: "http_env \<Rightarrow> Request \<Rightarrow> error + http_request" where
  "outgoing env req =
     (let url = (if \<not> HasPrefix (URL req) ''http://'' \<and> \<not> HasPrefix (URL req) ''https://''
                 then ''http://'' @ URL req else URL req);
          body = (if Body req \<noteq> [] then Some (Body req) else None)
      in case http_NewRequest env (Method req) url body of
           Inl err \<Rightarrow> Inl err
         | Inr httpReq \<Rightarrow>
             (let r1 = httpReq\<lparr>ReqHeader := add_headers env (Headers req) (ReqHeader httpReq)\<rparr>
              in Inr (if Body req \<noteq> [] \<and> Header_Get env (ReqHeader r1) ''Content-Type'' = []
                      then r1\<lparr>ReqHeader :=
                               Header_Set env (ReqHeader r1) ''Content-Type'' ''application/json''\<rparr>
                      else r1)))"

text \<open>The copy of the response headers: the values of a key joined, keys without values left out.\<close>

definition copy_headers :: "http_header \<Rightarrow> (string \<rightharpoonup> string)" where
  "copy_headers hdr =
     (\<lambda>k. case hdr k of
             None \<Rightarrow> None
           | Some v \<Rightarrow> (if length v > 0 then Some (Join_strings v '', '') else None))"

text \<open>
  \<open>SendRequest\<close> gives the response and the requests that went to the network, in order.
\<close>

definition SendRequest :: "http_env \<Rightarrow> Request \<Rightarrow> Response \<times> http_request list" where
  "SendRequest env req =
     (let response = \<lparr>StatusCode = 0, Status = [], RespHeaders = None, RespBody = [],
                       ResponseTime = 0, Error = []\<rparr>
      in if URL req = [] then (response\<lparr>Error := ''URL is required''\<rparr>, [])
         else case outgoing env req of
                Inl err \<Rightarrow> (response\<lparr>Error := err_msg err\<rparr>, [])
              | Inr httpReq \<Rightarrow>
                  (case Do env httpReq of
                     (result, elapsed) \<Rightarrow>
                       (let response1 = response\<lparr>ResponseTime := elapsed\<rparr>
                        in case result of
                             Inl err \<Rightarrow> (response1\<lparr>Error := err_msg err\<rparr>, [httpReq])
                           | Inr httpResp \<Rightarrow>
                               (let response2 = response1\<lparr>StatusCode := RStatusCode httpResp,
                                                          Status := RStatus httpResp\<rparr>;
                                    response3 = response2\<lparr>RespHeaders :=
                                                  Some (copy_headers (RHeader httpResp))\<rparr>
                                in case RBody httpResp of
                                     Inl err \<Rightarrow>
                                       (response3\<lparr>Error := ''Failed to read response body: ''
                                                              @ err_msg err\<rparr>, [httpReq])
                                   | Inr bodyBytes \<Rightarrow>
                                       (response3\<lparr>RespBody := bodyBytes\<rparr>, [httpReq])))))"

subsection \<open>The canonical form of a header key\<close>

text \<open>
  \<open>textproto.CanonicalMIMEHeaderKey\<close> is part of the Go standard library, not of the
  repository. It is written down here as the library documents and implements it: a key
  with a byte that is not allowed in a header name (a space, for one) is returned as it is;
  in any other key the first letter and every letter after a hyphen are made upper case and
  the other letters lower case (\<open>toLower\<close> is the distance \<open>'a' - 'A'\<close>). The executor
  takes the function from its environment, so what is proved for every environment does not
  depend on this text.
\<close>

definition is_lower :: "char \<Rightarrow> bool" where
  "is_lower c = (CHR ''a'' \<le> c \<and> c \<le> CHR ''z'')"

definition is_upper :: "char \<Rightarrow> bool" where
  "is_upper c = (CHR ''A'' \<le> c \<and> c \<le> CHR ''Z'')"

definition is_digit :: "char \<Rightarrow> bool" where
  "is_digit c = (CHR ''0'' \<le> c \<and> c \<le> CHR ''9'')"

definition toLower :: nat where "toLower = 32"

definition validHeaderFieldByte :: "char \<Rightarrow> bool" where
  "validHeaderFieldByte c =
     (is_digit c \<or> is_lower c \<or> is_upper c \<or> c \<in> set ''!#$%&*+-.^_`|~'' \<or> c = CHR 0x27)"

definition canon_byte :: "bool \<Rightarrow> char \<Rightarrow> char" where
  "canon_byte upper c =
     (if upper \<and> is_lower c then char_of (of_char c - toLower)
      else if \<not> upper \<and> is_upper c then char_of (of_char c + toLower)
      else c)"

fun canon_loop :: "bool \<Rightarrow> string \<Rightarrow> string" where
  "canon_loop upper [] = []"
| "canon_loop upper (c # cs) =
     (let c' = canon_byte upper c in c' # canon_loop (c' = CHR ''-'') cs)"

definition CanonicalMIMEHeaderKey :: "string \<Rightarrow> string" where
  "CanonicalMIMEHeaderKey s = (if list_all validHeaderFieldByte s then canon_loop True s else s)"

text \<open>Two keys differ only in letter case when they agree after lowering every letter.\<close>

definition lower_byte :: "char \<Rightarrow> char" where
  "lower_byte c = (if is_upper c then char_of (of_char c + toLower) else c)"

definition EqualFold :: "string \<Rightarrow> string \<Rightarrow> bool" where
  "EqualFold k1 k2 = (map lower_byte k1 = map lower_byte k2)"

text \<open>
  A header entry that the loop applies and that lands on the canonical entry of the key \<open>k\<close>.
\<close>

definition sets_key :: "http_env \<Rightarrow> string \<Rightarrow> Header \<Rightarrow> bool" where
  "sets_key env k h =
     (Enabled h \<and> Key h \<noteq> [] \<and> CanonicalKey env (Key h) = CanonicalKey env k)"

text \<open>The values that the request handed to \<open>Do\<close> holds under a key of its header map.\<close>

definition out_header :: "http_env \<Rightarrow> Request \<Rightarrow> string \<Rightarrow> string list option" where
  "out_header env req k = (case outgoing env req of Inl err \<Rightarrow> None | Inr q \<Rightarrow> ReqHeader q k)"

section \<open>Formatting helpers (package http)\<close>

text \<open>
  \<open>encoding/json\<close> is an environment too: \<open>Unmarshal\<close> into an empty interface gives
  the decoded value or an error, \<open>MarshalIndent\<close> takes the value, the prefix and the
  indent. The type of decoded values is left open.
\<close>

record 'v json_env =
  Unmarshal :: "string \<Rightarrow> error + 'v"
  MarshalIndent :: "'v \<Rightarrow> string \<Rightarrow> string \<Rightarrow> error + string"

definition FormatJSON :: "'v json_env \<Rightarrow> string \<Rightarrow> string" where
  "FormatJSON env input =
     (if input = [] then []
      else case Unmarshal env input of
             Inl err \<Rightarrow> input
           | Inr data \<Rightarrow>
               (case MarshalIndent env data [] ''  '' of
                  Inl err \<Rightarrow> input
                | Inr formatted \<Rightarrow> formatted))"

definition IsJSON :: "'v json_env \<Rightarrow> string \<Rightarrow> bool" where
  "IsJSON env s = (case Unmarshal env s of Inl err \<Rightarrow> False | Inr js \<Rightarrow> True)"

section \<open>The store in memory: slices and what they share\<close>

text \<open>
  A Go slice is a reference to a backing array together with a length, and a Go map is a
  reference; copying a struct copies these references, not what they refer to. To see what a
  caller of \<open>GetTemplates\<close> and \<open>GetHistory\<close> can reach, the store is modelled once more
  with its memory: arrays of headers, of templates and of history items and the header maps
  of responses live at addresses, and \<open>next_addr\<close> is the next free one. Every slice that
  the program stores starts at the first element of its array.
\<close>

type_synonym addr = nat

record slice =
  sl_array :: addr
  sl_len :: nat

record RequestM =
  MethodM :: string
  URLM :: string
  HeadersM :: slice
  BodyM :: string

record ResponseM =
  StatusCodeM :: int
  StatusM :: string
  RespHeadersM :: "addr option"
  RespBodyM :: string
  ResponseTimeM :: duration
  ErrorM :: string

record TemplateM =
  IDM :: string
  NameM :: string
  TRequestM :: RequestM
  CreatedAtM :: time
  UpdatedAtM :: time

record HistoryItemM =
  HIDM :: string
  HRequestM :: RequestM
  HResponseM :: ResponseM
  TimestampM :: time

record memory =
  header_arrays :: "addr \<Rightarrow> Header list"
  template_arrays :: "addr \<Rightarrow> TemplateM list"
  history_arrays :: "addr \<Rightarrow> HistoryItemM list"
  string_maps :: "addr \<Rightarrow> (string \<rightharpoonup> string)"
  next_addr :: addr

record StorageM =
  templatesM :: slice
  historyM :: slice

text \<open>The elements of a slice, and \<open>copy(dst, src)\<close> on the arrays of one element type.\<close>

definition elems :: "(addr \<Rightarrow> 'a list) \<Rightarrow> slice \<Rightarrow> 'a list" where
  "elems arrs sl = take (sl_len sl) (arrs (sl_array sl))"

definition copy_into :: "(addr \<Rightarrow> 'a list) \<Rightarrow> slice \<Rightarrow> slice \<Rightarrow> (addr \<Rightarrow> 'a list)" where
  "copy_into arrs dst src =
     (let n = min (length (elems arrs dst)) (length (elems arrs src))
      in arrs(sl_array dst := take n (elems arrs src) @ drop n (arrs (sl_array dst))))"

definition nil_slice :: slice where
  "nil_slice = \<lparr>sl_array = 0, sl_len = 0\<rparr>"

definition zero_header :: Header where
  "zero_header = \<lparr>Key = [], Value = [], Enabled = False\<rparr>"

definition zero_requestM :: RequestM where
  "zero_requestM = \<lparr>MethodM = [], URLM = [], HeadersM = nil_slice, BodyM = []\<rparr>"

definition zero_templateM :: TemplateM where
  "zero_templateM = \<lparr>IDM = [], NameM = [], TRequestM = zero_requestM, CreatedAtM = 0,
                      UpdatedAtM = 0\<rparr>"

definition zero_itemM :: HistoryItemM where
  "zero_itemM = \<lparr>HIDM = [], HRequestM = zero_requestM,
                  HResponseM = \<lparr>StatusCodeM = 0, StatusM = [], RespHeadersM = None,
                                 RespBodyM = [], ResponseTimeM = 0, ErrorM = []\<rparr>,
                  TimestampM = 0\<rparr>"

text \<open>\<open>Clone\<close> with its memory: a new array of headers, filled by \<open>copy\<close>.\<close>

definition CloneM :: "RequestM \<Rightarrow> memory \<Rightarrow> RequestM \<times> memory" where
  "CloneM r m =
     (let headers = \<lparr>sl_array = next_addr m, sl_len = sl_len (HeadersM r)\<rparr>;
          m1 = m\<lparr>header_arrays := (header_arrays m)
                     (next_addr m := replicate (sl_len (HeadersM r)) zero_header),
                 next_addr := Suc (next_addr m)\<rparr>;
          m2 = m1\<lparr>header_arrays := copy_into (header_arrays m1) headers (HeadersM r)\<rparr>
      in (\<lparr>MethodM = MethodM r, URLM = URLM r, HeadersM = headers, BodyM = BodyM r\<rparr>, m2))"

text \<open>
  \<open>GetTemplates\<close> and \<open>GetHistory\<close>: a new array of the length of the store's slice, and
  \<open>copy\<close> of the elements into it. The elements are structs: their header slices and
  header maps are copied as references.
\<close>

definition GetTemplatesM :: "StorageM \<Rightarrow> memory \<Rightarrow> slice \<times> memory" where
  "GetTemplatesM s m =
     (let result = \<lparr>sl_array = next_addr m, sl_len = sl_len (templatesM s)\<rparr>;
          m1 = m\<lparr>template_arrays := (template_arrays m)
                     (next_addr m := replicate (sl_len (templatesM s)) zero_templateM),
                 next_addr := Suc (next_addr m)\<rparr>;
          m2 = m1\<lparr>template_arrays := copy_into (template_arrays m1) result (templatesM s)\<rparr>
      in (result, m2))"

definition GetHistoryM :: "StorageM \<Rightarrow> memory \<Rightarrow> slice \<times> memory" where
  "GetHistoryM s m =
     (let result = \<lparr>sl_array = next_addr m, sl_len = sl_len (historyM s)\<rparr>;
          m1 = m\<lparr>history_arrays := (history_arrays m)
                     (next_addr m := replicate (sl_len (historyM s)) zero_itemM),
                 next_addr := Suc (next_addr m)\<rparr>;
          m2 = m1\<lparr>history_arrays := copy_into (history_arrays m1) result (historyM s)\<rparr>
      in (result, m2))"

text \<open>
  What a template or history item is worth by value: its slices and maps read out of the
  memory. The content of the store is the value of its two slices.
\<close>

definition view_request :: "memory \<Rightarrow> RequestM \<Rightarrow> Request" where
  "view_request m r = \<lparr>Method = MethodM r, URL = URLM r,
                        Headers = elems (header_arrays m) (HeadersM r), Body = BodyM r\<rparr>"

definition view_response :: "memory \<Rightarrow> ResponseM \<Rightarrow> Response" where
  "view_response m r = \<lparr>StatusCode = StatusCodeM r, Status = StatusM r,
                         RespHeaders = map_option (string_maps m) (RespHeadersM r),
                         RespBody = RespBodyM r, ResponseTime = ResponseTimeM r,
                         Error = ErrorM r\<rparr>"

definition view_template :: "memory \<Rightarrow> TemplateM \<Rightarrow> Template" where
  "view_template m t = \<lparr>ID = IDM t, Name = NameM t, TRequest = view_request m (TRequestM t),
                         CreatedAt = CreatedAtM t, UpdatedAt = UpdatedAtM t\<rparr>"

definition view_item :: "memory \<Rightarrow> HistoryItemM \<Rightarrow> HistoryItem" where
  "view_item m h = \<lparr>HID = HIDM h, HRequest = view_request m (HRequestM h),
                     HResponse = view_response m (HResponseM h), Timestamp = TimestampM h\<rparr>"

definition view_templates :: "memory \<Rightarrow> slice \<Rightarrow> Template list" where
  "view_templates m sl = map (view_template m) (elems (template_arrays m) sl)"

definition view_history :: "memory \<Rightarrow> slice \<Rightarrow> HistoryItem list" where
  "view_history m sl = map (view_item m) (elems (history_arrays m) sl)"

text \<open>
  What a caller can do with a slice it holds: assign an element of a slice of templates or
  of history items (which covers assigning any field of the element), assign an element of
  a slice of headers, such as \<open>result[i].Request.Headers\<close>, and set an entry of a header
  map, such as \<open>result[i].Response.Headers\<close>. An index out of range panics: no memory
  comes back.
\<close>

datatype mutation =
    SetTemplate slice nat TemplateM
  | SetHistoryItem slice nat HistoryItemM
  | SetHeader slice nat Header
  | SetMapEntry addr string string

fun apply_mutation :: "mutation \<Rightarrow> memory \<Rightarrow> memory option" where
  "apply_mutation (SetTemplate sl i t) m =
     (if i < sl_len sl
      then Some (m\<lparr>template_arrays := (template_arrays m)
                       (sl_array sl := (template_arrays m (sl_array sl))[i := t])\<rparr>)
      else None)"
| "apply_mutation (SetHistoryItem sl i h) m =
     (if i < sl_len sl
      then Some (m\<lparr>history_arrays := (history_arrays m)
                       (sl_array sl := (history_arrays m (sl_array sl))[i := h])\<rparr>)
      else None)"
| "apply_mutation (SetHeader sl j h) m =
     (if j < sl_len sl
      then Some (m\<lparr>header_arrays := (header_arrays m)
                       (sl_array sl := (header_arrays m (sl_array sl))[j := h])\<rparr>)
      else None)"
| "apply_mutation (SetMapEntry a k v) m =
     Some (m\<lparr>string_maps := (string_maps m)(a := (string_maps m a)(k \<mapsto> v))\<rparr>)"

fun apply_mutations :: "mutation list \<Rightarrow> memory \<Rightarrow> memory option" where
  "apply_mutations [] m = Some m"
| "apply_mutations (w # ws) m =
     (case apply_mutation w m of None \<Rightarrow> None | Some m1 \<Rightarrow> apply_mutations ws m1)"

text \<open>A write to an element of the sequence \<open>r\<close> itself.\<close>

fun writes_element_of :: "slice \<Rightarrow> mutation \<Rightarrow> bool" where
  "writes_element_of r (SetTemplate sl i t) = (sl_array sl = sl_array r)"
| "writes_element_of r (SetHistoryItem sl i h) = (sl_array sl = sl_array r)"
| "writes_element_of r (SetHeader sl j h) = False"
| "writes_element_of r (SetMapEntry a k v) = False"

text \<open>
  The store's slices are allocated and lie within their arrays, as every Go slice does.
\<close>

definition wf_store :: "StorageM \<Rightarrow> memory \<Rightarrow> bool" where
  "wf_store s m =
     (sl_array (templatesM s) < next_addr m
      \<and> sl_len (templatesM s) \<le> length (template_arrays m (sl_array (templatesM s)))
      \<and> sl_array (historyM s) < next_addr m
      \<and> sl_len (historyM s) \<le> length (history_arrays m (sl_array (historyM s))))"

text \<open>
  The caller takes the sequence that \<open>GetTemplates\<close> returns and assigns
  \<open>result[i].Request.Headers[j] = h\<close>.
\<close>

definition get_templates_set_header ::
  "StorageM \<Rightarrow> memory \<Rightarrow> nat \<Rightarrow> nat \<Rightarrow> Header \<Rightarrow> memory option" where
  "get_templates_set_header s m i j h =
     (case GetTemplatesM s m of
        (result, m1) \<Rightarrow>
          (if i < sl_len result
           then apply_mutation
                  (SetHeader (HeadersM (TRequestM (elems (template_arrays m1) result ! i))) j h) m1
           else None))"

section \<open>Concrete environments and inputs\<close>

text \<open>
  A decoder that knows one document and an encoder for it (the line feed is byte 10).
\<close>

definition json_demo :: "nat list json_env" where
  "json_demo = \<lparr>Unmarshal = (\<lambda>s. if s = ''[1,2]'' then Inr [1, 2]
                                  else Inl (ErrOther ''invalid character'')),
                 MarshalIndent = (\<lambda>v prefix indent.
                    if v = [1, 2]
                    then Inr (''['' @ [CHR 0x0A] @ indent @ ''1,'' @ [CHR 0x0A] @ indent @ ''2''
                              @ [CHR 0x0A] @ '']'')
                    else Inl (ErrOther ''unsupported value''))\<rparr>"

text \<open>
  A store with one template and one history item. The template was saved from a request
  with one header: its cloned header array is at address 1 and the template array at
  address 2. The history item has no request headers (an empty array at address 3), its
  response has its header map at address 4, and the history array is at address 5.
\<close>

definition accept_any :: Header where
  "accept_any = \<lparr>Key = ''Accept'', Value = ''*/*'', Enabled = True\<rparr>"

definition accept_html :: Header where
  "accept_html = \<lparr>Key = ''Accept'', Value = ''text/html'', Enabled = True\<rparr>"

definition mem_one :: memory where
  "mem_one = \<lparr>header_arrays = (\<lambda>_. [])(1 := [accept_any]),
               template_arrays = (\<lambda>_. [])(2 :=
                 [\<lparr>IDM = ''1'', NameM = ''A'',
                   TRequestM = \<lparr>MethodM = ''GET'', URLM = ''example.com'',
                                 HeadersM = \<lparr>sl_array = 1, sl_len = 1\<rparr>, BodyM = []\<rparr>,
                   CreatedAtM = 0, UpdatedAtM = 0\<rparr>]),
               history_arrays = (\<lambda>_. [])(5 :=
                 [\<lparr>HIDM = ''2'',
                   HRequestM = \<lparr>MethodM = ''GET'', URLM = ''example.com'',
                                 HeadersM = \<lparr>sl_array = 3, sl_len = 0\<rparr>, BodyM = []\<rparr>,
                   HResponseM = \<lparr>StatusCodeM = 200, StatusM = ''200 OK'', RespHeadersM = Some 4,
                                  RespBodyM = ''hello'', ResponseTimeM = 5, ErrorM = []\<rparr>,
                   TimestampM = 1\<rparr>]),
               string_maps = (\<lambda>_. Map.empty)(4 := [''Content-Type'' \<mapsto> ''text/plain'']),
               next_addr = 6\<rparr>"

definition store_one :: StorageM where
  "store_one = \<lparr>templatesM = \<lparr>sl_array = 2, sl_len = 1\<rparr>,
                 historyM = \<lparr>sl_array = 5, sl_len = 1\<rparr>\<rparr>"

text \<open>
  The headers of the requests of the templates, as the store holds them and as
  \<open>GetTemplates\<close> lists them.
\<close>

definition stored_headers :: "StorageM \<Rightarrow> memory \<Rightarrow> Header list list" where
  "stored_headers s m = map (Headers \<circ> TRequest) (view_templates m (templatesM s))"

definition listed_headers :: "StorageM \<Rightarrow> memory \<Rightarrow> Header list list" where
  "listed_headers s m =
     map (Headers \<circ> TRequest)
       (view_templates (snd (GetTemplatesM s m)) (fst (GetTemplatesM s m)))"

text \<open>
  A network that answers every request with the same response after 5 ns, behind a library
  that refuses the URL \<open>http://%zz\<close> (a bad escape); the same network with the body of the
  response cut off, and with the connection refused.
\<close>

definition ok_response :: http_response where
  "ok_response = \<lparr>RStatusCode = 200, RStatus = ''200 OK'',
                   RHeader = [''Content-Type'' \<mapsto> [''text/plain''],
                              ''Vary'' \<mapsto> [''Accept'', ''Origin'']],
                   RBody = Inr ''hello''\<rparr>"

definition net_ok :: http_env where
  "net_ok = \<lparr>NewRequestCheck =
                (\<lambda>method url. if url = ''http://%zz'' then Some (ErrOther ''invalid URL escape'')
                              else None),
              CanonicalKey = CanonicalMIMEHeaderKey,
              Do = (\<lambda>q. (Inr ok_response, 5))\<rparr>"

definition net_truncated :: http_env where
  "net_truncated =
     net_ok\<lparr>Do := (\<lambda>q. (Inr (ok_response\<lparr>RBody := Inl (ErrOther ''unexpected EOF'')\<rparr>), 5))\<rparr>"

definition net_down :: http_env where
  "net_down = net_ok\<lparr>Do := (\<lambda>q. (Inl (ErrOther ''connection refused''), 3))\<rparr>"

definition spec_bad_escape :: Request where
  "spec_bad_escape = \<lparr>Method = ''GET'', URL = ''%zz'', Headers = [], Body = []\<rparr>"

definition spec_empty_content_type :: Request where
  "spec_empty_content_type =
     \<lparr>Method = ''POST'', URL = ''example.com'',
      Headers = [\<lparr>Key = ''Content-Type'', Value = [], Enabled = True\<rparr>], Body = ''x''\<rparr>"

definition spec_text_plain :: Request where
  "spec_text_plain =
     \<lparr>Method = ''POST'', URL = ''example.com'',
      Headers = [\<lparr>Key = ''content-type'', Value = ''text/plain'', Enabled = True\<rparr>], Body = ''x''\<rparr>"

definition spec_space_keys :: Request where
  "spec_space_keys =
     \<lparr>Method = ''GET'', URL = ''example.com'',
      Headers = [\<lparr>Key = ''x y'', Value = ''1'', Enabled = True\<rparr>,
                 \<lparr>Key = ''X Y'', Value = ''2'', Enabled = True\<rparr>], Body = []\<rparr>"

definition spec_three_keys :: Request where
  "spec_three_keys =
     \<lparr>Method = ''GET'', URL = ''example.com'',
      Headers = [\<lparr>Key = ''a'', Value = ''1'', Enabled = True\<rparr>,
                 \<lparr>Key = ''A'', Value = ''2'', Enabled = True\<rparr>,
                 \<lparr>Key = ''a'', Value = ''3'', Enabled = True\<rparr>], Body = []\<rparr>"

definition spec_two_content_types :: Request where
  "spec_two_content_types =
     \<lparr>Method = ''POST'', URL = ''example.com'',
      Headers = [\<lparr>Key = ''content-type'', Value = ''text/plain'', Enabled = True\<rparr>,
                 \<lparr>Key = ''Content-Type'', Value = [], Enabled = True\<rparr>], Body = ''x''\<rparr>"

definition spec_accept_twice :: Request where
  "spec_accept_twice =
     \<lparr>Method = ''GET'', URL = ''https://example.com'',
      Headers = [\<lparr>Key = ''accept'', Value = ''text/html'', Enabled = True\<rparr>,
                 \<lparr>Key = ''X-Off'', Value = ''0'', Enabled = False\<rparr>,
                 \<lparr>Key = ''ACCEPT'', Value = ''*/*'', Enabled = True\<rparr>], Body = []\<rparr>"

text \<open>
  An environment in which every call succeeds and no backing file exists yet. Its decoder
  knows the empty array and rejects everything else; the bytes its encoder writes are not
  looked at.
\<close>

definition env_ok :: os_env where
  "env_ok = \<lparr>UserHomeDir = Inr ''/home/u'', MkdirAll = (\<lambda>_ _. None),
              Join = (\<lambda>a b. a @ ''/'' @ b), ReadFile = (\<lambda>_. Inl ErrNotExist),
              WriteFile = (\<lambda>_ _ _. None),
              UnmarshalTemplates = (\<lambda>d ts. if d = ''[]'' then (None, [])
                                     else (Some (ErrOther ''invalid character''), ts)),
              UnmarshalHistory = (\<lambda>d hs. if d = ''[]'' then (None, [])
                                   else (Some (ErrOther ''invalid character''), hs)),
              MarshalIndentTemplates = (\<lambda>_ _ _. Inr ''[]''),
              MarshalIndentHistory = (\<lambda>_ _ _. Inr ''[]'')\<rparr>"

definition empty_store :: Storage where
  "empty_store = \<lparr>templates = [], history = [], dataDir = ''/home/u/.gopostman''\<rparr>"

definition zero_response :: Response where
  "zero_response = \<lparr>StatusCode = 0, Status = [], RespHeaders = None, RespBody = [],
                     ResponseTime = 0, Error = []\<rparr>"

definition NewRequest :: Request where
  "NewRequest = \<lparr>Method = ''GET'', URL = [], Headers = [], Body = []\<rparr>"

definition numbered_call :: "nat \<Rightarrow> add_call" where
  "numbered_call k = \<lparr>call_id = replicate k (CHR ''i''), call_now = int k,
                       call_req = NewRequest, call_resp = zero_response\<rparr>"

text \<open>
  The same environment with a \<open>templates.json\<close> that exists and is not JSON.
\<close>

definition env_corrupt :: os_env where
  "env_corrupt = env_ok\<lparr>ReadFile :=
     (\<lambda>p. if p = ''/home/u/.gopostman/templates.json'' then Inr ''{not json''
          else Inl ErrNotExist)\<rparr>"

text \<open>Two requests, and a store whose file held two templates of the same name.\<close>

definition spec_one :: Request where
  "spec_one = \<lparr>Method = ''GET'', URL = ''example.com/1'', Headers = [], Body = []\<rparr>"

definition spec_two :: Request where
  "spec_two = \<lparr>Method = ''POST'', URL = ''example.com/2'',
               Headers = [\<lparr>Key = ''Accept'', Value = ''*/*'', Enabled = False\<rparr>],
               Body = ''{}''\<rparr>"

definition dup_store :: Storage where
  "dup_store = \<lparr>templates =
      [\<lparr>ID = ''1'', Name = ''A'', TRequest = NewRequest, CreatedAt = 0, UpdatedAt = 0\<rparr>,
       \<lparr>ID = ''2'', Name = ''A'', TRequest = NewRequest, CreatedAt = 0, UpdatedAt = 0\<rparr>],
     history = [], dataDir = ''/home/u/.gopostman''\<rparr>"

section \<open>Templates: saving under a name\<close>

lemma find_name_None: "find_name name ts = None \<longleftrightarrow> filter (\<lambda>t. Name t = name) ts = []"
  by (induction ts) auto

lemma find_name_Some:
  "find_name name ts = Some i \<Longrightarrow>
     i < length ts \<and> Name (ts ! i) = name \<and> filter (\<lambda>t. Name t = name) (take i ts) = []"
proof (induction ts arbitrary: i)
  case Nil
  then show ?case by simp
next
  case (Cons t ts)
  then show ?case
    by (cases "Name t = name") (auto)
qed

lemma filter_list_update_first:
  assumes "i < length ts" and "filter P (take i ts) = []" and "P (ts ! i)" and "P t'"
  shows "filter P (ts[i := t']) = t' # filter P (drop (Suc i) ts)"
    and "filter P ts = ts ! i # filter P (drop (Suc i) ts)"
proof -
  have u: "ts[i := t'] = take i ts @ t' # drop (Suc i) ts"
    using assms(1) by (rule upd_conv_take_nth_drop)
  show "filter P (ts[i := t']) = t' # filter P (drop (Suc i) ts)"
    using assms by (simp add: u)
  have "ts = take i ts @ ts ! i # drop (Suc i) ts"
    using assms(1) by (simp add: id_take_nth_drop [symmetric])
  then have "filter P ts = filter P (take i ts @ ts ! i # drop (Suc i) ts)"
    by simp
  then show "filter P ts = ts ! i # filter P (drop (Suc i) ts)"
    using assms by simp
qed

lemma SaveTemplate_new:
  assumes "named name s = []"
  shows "named name (snd (SaveTemplate env new_id now name req s))
           = [\<lparr>ID = new_id, Name = name, TRequest = Clone req, CreatedAt = now, UpdatedAt = now\<rparr>]"
    and "fst (SaveTemplate env new_id now name req s) = Inr r \<Longrightarrow>
           r = \<lparr>ID = new_id, Name = name, TRequest = Clone req, CreatedAt = now, UpdatedAt = now\<rparr>"
proof -
  have n: "find_name name (templates s) = None"
    using assms by (simp add: find_name_None named_def)
  have f: "filter (\<lambda>t. Name t = name) (templates s) = []"
    using assms by (simp add: named_def)
  show "named name (snd (SaveTemplate env new_id now name req s))
           = [\<lparr>ID = new_id, Name = name, TRequest = Clone req, CreatedAt = now, UpdatedAt = now\<rparr>]"
    by (simp add: SaveTemplate_def n Let_def named_def filter_sort f split: option.splits)
  show "fst (SaveTemplate env new_id now name req s) = Inr r \<Longrightarrow>
           r = \<lparr>ID = new_id, Name = name, TRequest = Clone req, CreatedAt = now, UpdatedAt = now\<rparr>"
    by (auto simp add: SaveTemplate_def n Let_def split: option.splits)
qed

lemma SaveTemplate_found:
  assumes "find_name name (templates s) = Some i"
  shows "snd (SaveTemplate env new_id now name req s)
           = s\<lparr>templates := (templates s)[i := (templates s ! i)\<lparr>TRequest := Clone req, UpdatedAt := now\<rparr>]\<rparr>"
    and "fst (SaveTemplate env new_id now name req s) = Inr r \<Longrightarrow>
           r = (templates s ! i)\<lparr>TRequest := Clone req, UpdatedAt := now\<rparr>"
proof -
  have i: "i < length (templates s)"
    using find_name_Some [OF assms] by simp
  then show "snd (SaveTemplate env new_id now name req s)
           = s\<lparr>templates := (templates s)[i := (templates s ! i)\<lparr>TRequest := Clone req, UpdatedAt := now\<rparr>]\<rparr>"
    by (simp add: SaveTemplate_def assms Let_def split: option.splits)
  show "fst (SaveTemplate env new_id now name req s) = Inr r \<Longrightarrow>
           r = (templates s ! i)\<lparr>TRequest := Clone req, UpdatedAt := now\<rparr>"
    using i by (auto simp add: SaveTemplate_def assms Let_def split: option.splits)
qed

lemma SaveTemplate_existing:
  assumes "named name s = [t]"
  shows "named name (snd (SaveTemplate env new_id now name req s))
           = [t\<lparr>TRequest := Clone req, UpdatedAt := now\<rparr>]"
    and "length (templates (snd (SaveTemplate env new_id now name req s))) = length (templates s)"
    and "fst (SaveTemplate env new_id now name req s) = Inr r \<Longrightarrow>
           r = t\<lparr>TRequest := Clone req, UpdatedAt := now\<rparr>"
proof -
  let ?P = "\<lambda>t. Name t = name"
  have "find_name name (templates s) \<noteq> None"
    using assms by (simp add: find_name_None named_def)
  then obtain i where i: "find_name name (templates s) = Some i"
    by auto
  note fs = find_name_Some [OF i]
  let ?t' = "(templates s ! i)\<lparr>TRequest := Clone req, UpdatedAt := now\<rparr>"
  have old: "filter ?P (templates s) = templates s ! i # filter ?P (drop (Suc i) (templates s))"
    using fs by (intro filter_list_update_first(2) [where t' = ?t']) simp_all
  then have ti: "templates s ! i = t" and rest: "filter ?P (drop (Suc i) (templates s)) = []"
    using assms by (simp_all add: named_def)
  have new: "filter ?P ((templates s)[i := ?t']) = ?t' # filter ?P (drop (Suc i) (templates s))"
    using fs by (intro filter_list_update_first(1)) simp_all
  show "named name (snd (SaveTemplate env new_id now name req s))
           = [t\<lparr>TRequest := Clone req, UpdatedAt := now\<rparr>]"
    using new rest unfolding ti by (simp add: SaveTemplate_found(1) [OF i] named_def ti)
  show "length (templates (snd (SaveTemplate env new_id now name req s))) = length (templates s)"
    by (simp add: SaveTemplate_found(1) [OF i])
  show "fst (SaveTemplate env new_id now name req s) = Inr r \<Longrightarrow>
           r = t\<lparr>TRequest := Clone req, UpdatedAt := now\<rparr>"
    using SaveTemplate_found(2) [OF i, of env new_id now req r] ti by simp
qed

lemma SaveTemplate_first:
  assumes "length (named name s0) \<le> 1"
  shows "\<exists>t1. named name (snd (SaveTemplate env id1 now1 name spec1 s0)) = [t1]
            \<and> (\<forall>r. fst (SaveTemplate env id1 now1 name spec1 s0) = Inr r \<longrightarrow> r = t1)"
proof (cases "named name s0")
  case Nil
  show ?thesis
    using SaveTemplate_new [OF Nil, of env id1 now1 spec1] by blast
next
  case (Cons t ts)
  with assms have "named name s0 = [t]"
    by simp
  then show ?thesis
    using SaveTemplate_existing(1,3) [of name s0 t env id1 now1 spec1] by blast
qed

text \<open>
  C5 (as amended). On a store that holds at most one template of the name, saving under that
  name twice leaves exactly one template of the name: its request is the copy of the second
  request (equal to it), its identifier and creation time are those it had after the first
  call, its update time is the time of the second call, and the second call adds no template.
  Each call that does not fail returns that template.
\<close>

theorem C5_SaveTemplate_twice:
  assumes "length (named name s0) \<le> 1"
  shows "\<exists>t1 t2.
           named name (snd (SaveTemplate env id1 now1 name spec1 s0)) = [t1]
         \<and> named name (snd (SaveTemplate env id2 now2 name spec2
                              (snd (SaveTemplate env id1 now1 name spec1 s0)))) = [t2]
         \<and> TRequest t2 = Clone spec2 \<and> Clone spec2 = spec2
         \<and> ID t2 = ID t1 \<and> CreatedAt t2 = CreatedAt t1 \<and> UpdatedAt t2 = now2
         \<and> length (templates (snd (SaveTemplate env id2 now2 name spec2
                                     (snd (SaveTemplate env id1 now1 name spec1 s0)))))
             = length (templates (snd (SaveTemplate env id1 now1 name spec1 s0)))
         \<and> (\<forall>r. fst (SaveTemplate env id1 now1 name spec1 s0) = Inr r \<longrightarrow> r = t1)
         \<and> (\<forall>r. fst (SaveTemplate env id2 now2 name spec2
                        (snd (SaveTemplate env id1 now1 name spec1 s0))) = Inr r \<longrightarrow> r = t2)"
proof -
  let ?s1 = "snd (SaveTemplate env id1 now1 name spec1 s0)"
  from SaveTemplate_first [OF assms, of env id1 now1 spec1]
  obtain t1 where t1: "named name ?s1 = [t1]"
    and r1: "\<forall>r. fst (SaveTemplate env id1 now1 name spec1 s0) = Inr r \<longrightarrow> r = t1"
    by blast
  note e = SaveTemplate_existing [OF t1, of env id2 now2 spec2]
  show ?thesis
    apply (rule exI [of _ t1])
    apply (rule exI [of _ "t1\<lparr>TRequest := Clone spec2, UpdatedAt := now2\<rparr>"])
    using t1 r1 e by (simp add: Clone_def)
qed

text \<open>
  The claim as stated, for any store: a store whose file held two templates named \<open>A\<close>
  still holds two of them after both calls.
\<close>

theorem C5_any_store_counterexample:
  "length (named ''A'' (snd (SaveTemplate env_ok ''n2'' 2 ''A'' spec_two
                          (snd (SaveTemplate env_ok ''n1'' 1 ''A'' spec_one dup_store))))) = 2"
  by (simp add: SaveTemplate_def named_def dup_store_def env_ok_def saveTemplates_def Let_def)

theorem C5_SaveTemplate_twice_witness:
  "length (named ''A'' empty_store) \<le> 1
   \<and> (\<exists>t. named ''A'' (snd (SaveTemplate env_ok ''n2'' 2 ''A'' spec_two
                          (snd (SaveTemplate env_ok ''n1'' 1 ''A'' spec_one empty_store)))) = [t]
          \<and> TRequest t = spec_two \<and> UpdatedAt t = 2)"
proof -
  have h: "length (named ''A'' empty_store) \<le> 1"
    by (simp add: named_def empty_store_def)
  from C5_SaveTemplate_twice [OF h, of env_ok "''n1''" 1 spec_one "''n2''" 2 spec_two] h
  show ?thesis
    by auto
qed

section \<open>Construction of the store\<close>

text \<open>
  C1. With a \<open>templates.json\<close> that exists and does not parse, \<open>loadTemplates\<close> returns
  the parse error, and \<open>NewStorage\<close> returns a store and no error: the error is dropped.
\<close>

theorem C1_NewStorage_drops_parse_error:
  "loadTemplates env_corrupt empty_store = (Some (ErrOther ''invalid character''), empty_store)
   \<and> NewStorage env_corrupt = Inr empty_store"
  by (simp add: loadTemplates_def loadHistory_def NewStorage_def env_corrupt_def env_ok_def
      empty_store_def appDirName_def templatesFile_def historyFile_def IsNotExist_def)

lemma NewStorage_error_cases:
  "NewStorage env = Inl e \<longleftrightarrow>
     (UserHomeDir env = Inl e
      \<or> (\<exists>h. UserHomeDir env = Inr h \<and> MkdirAll env (Join env h appDirName) 493 = Some e))"
  by (auto simp add: NewStorage_def Let_def split: sum.splits option.splits)

section \<open>The request executor: results\<close>

text \<open>
  C7. A request with the empty URL gives the zero response with the error
  \<open>URL is required\<close>, every other field zero, and nothing goes to the network.
\<close>

theorem C7_empty_url:
  "URL req = [] \<Longrightarrow>
     SendRequest env req = (zero_response\<lparr>Error := ''URL is required''\<rparr>, [])"
  by (simp add: SendRequest_def zero_response_def)

theorem C7_empty_url_witness:
  "URL NewRequest = []
   \<and> SendRequest net_down NewRequest = (zero_response\<lparr>Error := ''URL is required''\<rparr>, [])"
proof -
  have u: "URL NewRequest = []"
    by (simp add: NewRequest_def)
  from C7_empty_url [OF u, of net_down] u show ?thesis
    by simp
qed




text \<open>
  C4 (as amended). When the URL is not empty and the request is built, the elapsed time of
  the result is the time measured around the one network call, whatever the call gives
  (a response, a response whose body cannot be read, or an error). When the URL is empty or
  the library refuses to build the request, there is no network call and the elapsed time
  stays zero.
\<close>

theorem C4_elapsed:
  "(URL req \<noteq> [] \<and> outgoing env req = Inr q \<longrightarrow>
      ResponseTime (fst (SendRequest env req)) = snd (Do env q)
      \<and> snd (SendRequest env req) = [q])
   \<and> (URL req = [] \<or> outgoing env req = Inl e \<longrightarrow>
      ResponseTime (fst (SendRequest env req)) = 0
      \<and> snd (SendRequest env req) = [])"
  by (auto simp add: SendRequest_def Let_def split: if_splits sum.splits prod.splits)

theorem C4_elapsed_witness:
  "ResponseTime (fst (SendRequest net_down spec_one)) = 3
   \<and> ResponseTime (fst (SendRequest net_truncated spec_one)) = 5
   \<and> ResponseTime (fst (SendRequest net_ok spec_bad_escape)) = 0"
proof -
  have u: "URL spec_one \<noteq> []"
    by (simp add: spec_one_def)
  obtain q where q: "outgoing net_down spec_one = Inr q"
    by (simp add: outgoing_def http_NewRequest_def net_down_def net_ok_def spec_one_def
        HasPrefix_def Let_def)
  obtain q' where q': "outgoing net_truncated spec_one = Inr q'"
    by (simp add: outgoing_def http_NewRequest_def net_truncated_def net_ok_def spec_one_def
        HasPrefix_def Let_def)
  have b: "outgoing net_ok spec_bad_escape = Inl (ErrOther ''invalid URL escape'')"
    by (simp add: outgoing_def http_NewRequest_def net_ok_def spec_bad_escape_def
        HasPrefix_def Let_def)
  from C4_elapsed [of spec_one net_down q] u q
  have 1: "ResponseTime (fst (SendRequest net_down spec_one)) = 3"
    by (simp add: net_down_def)
  from C4_elapsed [of spec_one net_truncated q'] u q'
  have 2: "ResponseTime (fst (SendRequest net_truncated spec_one)) = 5"
    by (simp add: net_truncated_def)
  from C4_elapsed [of spec_bad_escape net_ok _ "ErrOther ''invalid URL escape''"] b
  have 3: "ResponseTime (fst (SendRequest net_ok spec_bad_escape)) = 0"
    by simp
  from 1 2 3 show ?thesis
    by simp
qed

text \<open>
  The claim as stated: the URL \<open>%zz\<close> is not empty, the library refuses it before any
  network call, and the elapsed time is left zero.
\<close>

theorem C4_refused_request_counterexample:
  "URL spec_bad_escape \<noteq> []
   \<and> Error (fst (SendRequest net_ok spec_bad_escape)) = ''invalid URL escape''
   \<and> ResponseTime (fst (SendRequest net_ok spec_bad_escape)) = 0
   \<and> snd (SendRequest net_ok spec_bad_escape) = []"
  by code_simp

section \<open>The headers of the outgoing request\<close>

lemma add_headers_lookup:
  "add_headers env hs hdr k =
     (if filter (\<lambda>h. Enabled h \<and> Key h \<noteq> [] \<and> CanonicalKey env (Key h) = k) hs = []
      then hdr k
      else Some [Value (last (filter (\<lambda>h. Enabled h \<and> Key h \<noteq> [] \<and> CanonicalKey env (Key h) = k) hs))])"
proof (induction hs arbitrary: hdr)
  case Nil
  show ?case by simp
next
  case (Cons h hs)
  show ?case
    by (auto simp add: Cons.IH Header_Set_def)
qed

lemma add_headers_last:
  assumes "Enabled h" and "Key h \<noteq> []"
    and "\<forall>x\<in>set post. \<not> (Enabled x \<and> Key x \<noteq> [] \<and> CanonicalKey env (Key x) = CanonicalKey env (Key h))"
  shows "add_headers env (pre @ h # post) hdr (CanonicalKey env (Key h)) = Some [Value h]"
proof -
  let ?P = "\<lambda>x. Enabled x \<and> Key x \<noteq> [] \<and> CanonicalKey env (Key x) = CanonicalKey env (Key h)"
  have "filter ?P post = []"
    using assms(3) by (simp add: filter_empty_conv)
  then have "filter ?P (pre @ h # post) = filter ?P pre @ [h]"
    using assms(1,2) by simp
  then show ?thesis
    by (simp only: add_headers_lookup) simp
qed

lemma add_headers_none:
  assumes "\<forall>x\<in>set hs. \<not> (Enabled x \<and> Key x \<noteq> [] \<and> CanonicalKey env (Key x) = k)"
  shows "add_headers env hs hdr k = hdr k"
proof -
  have "filter (\<lambda>h. Enabled h \<and> Key h \<noteq> [] \<and> CanonicalKey env (Key h) = k) hs = []"
    using assms by (simp add: filter_empty_conv)
  then show ?thesis
    by (simp only: add_headers_lookup) simp
qed

lemma outgoing_header:
  assumes "outgoing env req = Inr q"
  shows "ReqHeader q =
           (let hdr = add_headers env (Headers req) Map.empty
            in if Body req \<noteq> [] \<and> Header_Get env hdr ''Content-Type'' = []
               then Header_Set env hdr ''Content-Type'' ''application/json'' else hdr)"
  using assms
  by (auto simp add: outgoing_def http_NewRequest_def Let_def split: option.splits if_splits)

text \<open>
  C8 (as amended). For a request with a body that the library builds: if no enabled entry
  with a key sets \<open>Content-Type\<close>, the outgoing request carries
  \<open>Content-Type: application/json\<close>. Otherwise the last enabled entry that sets
  \<open>Content-Type\<close> decides, whatever the entries before it hold: if its value is not
  empty, the outgoing request carries that value unchanged; if its value is empty, the
  outgoing request carries \<open>application/json\<close>.
\<close>

theorem C8_content_type:
  assumes "Body req \<noteq> []" and "outgoing env req = Inr q"
  shows "((\<forall>h\<in>set (Headers req). \<not> sets_key env ''Content-Type'' h) \<longrightarrow>
            ReqHeader q (CanonicalKey env ''Content-Type'') = Some [''application/json''])
       \<and> (\<forall>pre h post.
            Headers req = pre @ h # post \<and> sets_key env ''Content-Type'' h
            \<and> (\<forall>x\<in>set post. \<not> sets_key env ''Content-Type'' x) \<longrightarrow>
            ReqHeader q (CanonicalKey env ''Content-Type'')
              = Some [if Value h = [] then ''application/json'' else Value h])"
proof (intro conjI allI impI)
  let ?ct = "CanonicalKey env ''Content-Type''"
  let ?hdr = "add_headers env (Headers req) Map.empty"
  assume "\<forall>h\<in>set (Headers req). \<not> sets_key env ''Content-Type'' h"
  then have "?hdr ?ct = None"
    using add_headers_none [of "Headers req" env ?ct Map.empty] by (simp add: sets_key_def)
  then show "ReqHeader q ?ct = Some [''application/json'']"
    using assms by (simp add: outgoing_header [OF assms(2)] Header_Get_def Header_Set_def)
next
  fix pre h post
  let ?ct = "CanonicalKey env ''Content-Type''"
  let ?hdr = "add_headers env (Headers req) Map.empty"
  assume a: "Headers req = pre @ h # post \<and> sets_key env ''Content-Type'' h
            \<and> (\<forall>x\<in>set post. \<not> sets_key env ''Content-Type'' x)"
  then have k: "CanonicalKey env (Key h) = ?ct"
    by (simp add: sets_key_def)
  have "add_headers env (pre @ h # post) Map.empty (CanonicalKey env (Key h)) = Some [Value h]"
    using a by (intro add_headers_last) (simp_all add: sets_key_def)
  then have "?hdr ?ct = Some [Value h]"
    using a k by simp
  then show "ReqHeader q ?ct = Some [if Value h = [] then ''application/json'' else Value h]"
    using assms by (simp add: outgoing_header [OF assms(2)] Header_Get_def Header_Set_def)
qed


theorem C8_content_type_witness:
  "out_header net_ok spec_two ''Content-Type'' = Some [''application/json'']
   \<and> out_header net_ok spec_text_plain ''Content-Type'' = Some [''text/plain'']
   \<and> out_header net_ok spec_two_content_types ''Content-Type'' = Some [''application/json'']"
proof -
  have ct: "CanonicalKey net_ok ''Content-Type'' = ''Content-Type''"
    unfolding net_ok_def by code_simp
  have b2: "Body spec_two \<noteq> []"
    by (simp add: spec_two_def)
  obtain q2 where q2: "outgoing net_ok spec_two = Inr q2"
    by (simp add: outgoing_def http_NewRequest_def net_ok_def spec_two_def HasPrefix_def Let_def)
  have n2: "\<forall>h\<in>set (Headers spec_two). \<not> sets_key net_ok ''Content-Type'' h"
    by (simp add: spec_two_def sets_key_def)
  from C8_content_type [OF b2 q2] n2
  have 1: "out_header net_ok spec_two ''Content-Type'' = Some [''application/json'']"
    by (simp add: out_header_def q2 ct)
  have bp: "Body spec_text_plain \<noteq> []"
    by (simp add: spec_text_plain_def)
  obtain qp where qp: "outgoing net_ok spec_text_plain = Inr qp"
    by (simp add: outgoing_def http_NewRequest_def net_ok_def spec_text_plain_def HasPrefix_def
        Let_def)
  have cl: "CanonicalKey net_ok ''content-type'' = ''Content-Type''"
    unfolding net_ok_def by code_simp
  have hp: "Headers spec_text_plain
              = [] @ \<lparr>Key = ''content-type'', Value = ''text/plain'', Enabled = True\<rparr> # []
            \<and> sets_key net_ok ''Content-Type''
                 \<lparr>Key = ''content-type'', Value = ''text/plain'', Enabled = True\<rparr>
            \<and> (\<forall>x\<in>set []. \<not> sets_key net_ok ''Content-Type'' x)"
    by (simp add: spec_text_plain_def sets_key_def ct cl)
  from C8_content_type [OF bp qp] hp
  have "ReqHeader qp (CanonicalKey net_ok ''Content-Type'')
          = Some [if Value \<lparr>Key = ''content-type'', Value = ''text/plain'', Enabled = True\<rparr> = []
                  then ''application/json''
                  else Value \<lparr>Key = ''content-type'', Value = ''text/plain'', Enabled = True\<rparr>]"
    by blast
  then have 2: "out_header net_ok spec_text_plain ''Content-Type'' = Some [''text/plain'']"
    by (simp add: out_header_def qp ct)
  have bt: "Body spec_two_content_types \<noteq> []"
    by (simp add: spec_two_content_types_def)
  obtain qt where qt: "outgoing net_ok spec_two_content_types = Inr qt"
    by (simp add: outgoing_def http_NewRequest_def net_ok_def spec_two_content_types_def
        HasPrefix_def Let_def)
  have ht: "Headers spec_two_content_types
              = [\<lparr>Key = ''content-type'', Value = ''text/plain'', Enabled = True\<rparr>]
                @ \<lparr>Key = ''Content-Type'', Value = [], Enabled = True\<rparr> # []
            \<and> sets_key net_ok ''Content-Type''
                 \<lparr>Key = ''Content-Type'', Value = [], Enabled = True\<rparr>
            \<and> (\<forall>x\<in>set []. \<not> sets_key net_ok ''Content-Type'' x)"
    by (simp add: spec_two_content_types_def sets_key_def ct)
  from C8_content_type [OF bt qt] ht
  have "ReqHeader qt (CanonicalKey net_ok ''Content-Type'')
          = Some [if Value \<lparr>Key = ''Content-Type'', Value = [], Enabled = True\<rparr> = []
                  then ''application/json''
                  else Value \<lparr>Key = ''Content-Type'', Value = [], Enabled = True\<rparr>]"
    by blast
  then have 3: "out_header net_ok spec_two_content_types ''Content-Type''
                  = Some [''application/json'']"
    by (simp add: out_header_def qt ct)
  from 1 2 3 show ?thesis
    by simp
qed

text \<open>
  The claim as stated: an enabled entry sets \<open>Content-Type\<close> to the empty value, and the
  outgoing request carries \<open>application/json\<close> in its place.
\<close>

theorem C8_empty_value_counterexample:
  "Headers spec_empty_content_type = [\<lparr>Key = ''Content-Type'', Value = [], Enabled = True\<rparr>]
   \<and> out_header net_ok spec_empty_content_type ''Content-Type'' = Some [''application/json'']"
  by code_simp

section \<open>Header keys and letter case\<close>

lemma of_char_nat_less: "(of_char c :: nat) < 256"
  by (cases c) simp

lemma is_upper_nat: "is_upper c \<longleftrightarrow> 65 \<le> (of_char c :: nat) \<and> (of_char c :: nat) \<le> 90"
  by (simp add: is_upper_def less_eq_char_def)

lemma is_lower_nat: "is_lower c \<longleftrightarrow> 97 \<le> (of_char c :: nat) \<and> (of_char c :: nat) \<le> 122"
  by (simp add: is_lower_def less_eq_char_def)

lemma is_digit_nat: "is_digit c \<longleftrightarrow> 48 \<le> (of_char c :: nat) \<and> (of_char c :: nat) \<le> 57"
  by (simp add: is_digit_def less_eq_char_def)

lemma of_char_char_of_small: "n < 256 \<Longrightarrow> (of_char (char_of n) :: nat) = n"
  by simp

lemma lower_byte_nat:
  "(of_char (lower_byte c) :: nat) = (if is_upper c then of_char c + 32 else of_char c)"
  by (simp add: lower_byte_def toLower_def is_upper_nat)

lemma canon_byte_nat:
  "(of_char (canon_byte u c) :: nat) =
     (if u \<and> is_lower c then of_char c - 32
      else if \<not> u \<and> is_upper c then of_char c + 32 else of_char c)"
  using of_char_nat_less [of c]
  by (auto simp add: canon_byte_def toLower_def is_upper_nat is_lower_nat)

lemma canon_byte_case_insensitive:
  assumes "lower_byte c = lower_byte d"
  shows "canon_byte u c = canon_byte u d"
proof -
  have "(of_char (lower_byte c) :: nat) = of_char (lower_byte d)"
    using assms by simp
  then have "(of_char (canon_byte u c) :: nat) = of_char (canon_byte u d)"
    unfolding lower_byte_nat canon_byte_nat is_upper_nat is_lower_nat
    by (cases u) (auto split: if_splits)
  then show ?thesis
    by simp
qed

lemma canon_byte_idem: "canon_byte u (canon_byte u c) = canon_byte u c"
proof -
  have "(of_char (canon_byte u (canon_byte u c)) :: nat) = of_char (canon_byte u c)"
    unfolding canon_byte_nat [of u "canon_byte u c"] is_upper_nat is_lower_nat
    unfolding canon_byte_nat [of u c] is_upper_nat is_lower_nat
    by (cases u) (auto split: if_splits)
  then show ?thesis
    by simp
qed

lemma valid_nat:
  "validHeaderFieldByte c \<longleftrightarrow>
     is_digit c \<or> is_lower c \<or> is_upper c
     \<or> (of_char c :: nat) \<in> {33, 35, 36, 37, 38, 39, 42, 43, 45, 46, 94, 95, 96, 124, 126}"
proof -
  have "c \<in> set ''!#$%&*+-.^_`|~'' \<or> c = CHR 0x27
        \<longleftrightarrow> (of_char c :: nat) \<in> {33, 35, 36, 37, 38, 39, 42, 43, 45, 46, 94, 95, 96, 124, 126}"
    by (cases c) auto
  then show ?thesis
    unfolding validHeaderFieldByte_def by blast
qed


lemma valid_letter: "is_lower c \<or> is_upper c \<Longrightarrow> validHeaderFieldByte c"
  unfolding validHeaderFieldByte_def by blast

lemma valid_lower_byte: "validHeaderFieldByte (lower_byte c) = validHeaderFieldByte c"
proof (cases "is_upper c")
  case True
  then have "is_lower (lower_byte c)"
    unfolding is_lower_nat lower_byte_nat is_upper_nat by simp
  then show ?thesis
    using True by (simp add: valid_letter)
next
  case False
  then show ?thesis
    by (simp add: lower_byte_def)
qed

lemma canon_byte_valid: "validHeaderFieldByte (canon_byte u c) = validHeaderFieldByte c"
proof -
  have "(u \<and> is_lower c) \<or> (\<not> u \<and> is_upper c) \<or> canon_byte u c = c"
    by (simp add: canon_byte_def)
  then consider "u \<and> is_lower c" | "\<not> u \<and> is_upper c" | "canon_byte u c = c"
    by blast
  then show ?thesis
  proof cases
    case 1
    then have "is_upper (canon_byte u c)"
      unfolding is_upper_nat canon_byte_nat is_lower_nat by auto
    then show ?thesis
      using 1 by (simp add: valid_letter)
  next
    case 2
    then have "is_lower (canon_byte u c)"
      unfolding is_upper_nat canon_byte_nat is_lower_nat by auto
    then show ?thesis
      using 2 by (simp add: valid_letter)
  next
    case 3
    then show ?thesis
      by simp
  qed
qed


lemma canon_loop_idem: "canon_loop u (canon_loop u s) = canon_loop u s"
  by (induction s arbitrary: u) (simp_all add: Let_def canon_byte_idem)

lemma canon_loop_valid:
  "list_all validHeaderFieldByte (canon_loop u s) = list_all validHeaderFieldByte s"
  by (induction s arbitrary: u) (simp_all add: Let_def canon_byte_valid)


lemma canon_loop_case_insensitive:
  "map lower_byte k1 = map lower_byte k2 \<Longrightarrow> canon_loop u k1 = canon_loop u k2"
proof (induction k1 arbitrary: k2 u)
  case Nil
  then show ?case by simp
next
  case (Cons c cs)
  then obtain d ds where k2: "k2 = d # ds" and cd: "lower_byte c = lower_byte d"
    and rest: "map lower_byte cs = map lower_byte ds"
    by (cases k2) auto
  show ?case
    using Cons.IH [OF rest] canon_byte_case_insensitive [OF cd, of u]
    by (simp add: k2 Let_def)
qed

lemma valid_EqualFold:
  assumes "EqualFold k1 k2"
  shows "list_all validHeaderFieldByte k1 = list_all validHeaderFieldByte k2"
proof -
  have "list_all validHeaderFieldByte k = list_all validHeaderFieldByte (map lower_byte k)" for k
    by (simp add: list_all_iff valid_lower_byte)
  from this [of k1] this [of k2] show ?thesis
    using assms by (simp add: EqualFold_def)
qed

lemma Canonical_EqualFold:
  assumes "EqualFold k1 k2" and "list_all validHeaderFieldByte k1"
  shows "CanonicalMIMEHeaderKey k1 = CanonicalMIMEHeaderKey k2"
  using assms valid_EqualFold [OF assms(1)] canon_loop_case_insensitive [of k1 k2 True]
  by (simp add: CanonicalMIMEHeaderKey_def EqualFold_def)

lemma Canonical_idem: "CanonicalMIMEHeaderKey (CanonicalMIMEHeaderKey s) = CanonicalMIMEHeaderKey s"
  by (simp add: CanonicalMIMEHeaderKey_def canon_loop_valid canon_loop_idem)

lemma add_headers_dom:
  assumes "add_headers env hs hdr k \<noteq> None"
  shows "hdr k \<noteq> None \<or> (\<exists>x\<in>set hs. k = CanonicalKey env (Key x))"
proof (cases "filter (\<lambda>h. Enabled h \<and> Key h \<noteq> [] \<and> CanonicalKey env (Key h) = k) hs = []")
  case True
  then show ?thesis
    using assms by (simp only: add_headers_lookup) simp
next
  case False
  then obtain x where "x \<in> set hs" and "CanonicalKey env (Key x) = k"
    by (auto simp add: filter_empty_conv)
  then show ?thesis
    by blast
qed

lemma outgoing_dom:
  assumes "outgoing env req = Inr q" and "ReqHeader q k \<noteq> None"
  shows "\<exists>z. k = CanonicalKey env z"
proof -
  let ?hdr = "add_headers env (Headers req) Map.empty"
  have "?hdr k \<noteq> None \<or> k = CanonicalKey env ''Content-Type''"
    using assms(2) unfolding outgoing_header [OF assms(1)]
    by (auto simp add: Let_def Header_Set_def split: if_splits)
  then show ?thesis
    using add_headers_dom [of env "Headers req" Map.empty k] by auto
qed

text \<open>
  C10 (as amended). With the canonical keys of the Go library: when two enabled entries have
  keys made of bytes allowed in a header name that differ only in letter case, no later
  applied entry has the same canonical key, and the later entry is not an empty
  \<open>Content-Type\<close> on a request with a body, then the keys have the same canonical form,
  the outgoing request holds under it the single value of the later entry, it holds nothing
  under any other spelling of the key, and looking up either key gives that value.
\<close>

theorem C10_case_insensitive_keys:
  assumes "CanonicalKey env = CanonicalMIMEHeaderKey"
    and "Headers req = pre @ h1 # mid @ h2 # post"
    and "Enabled h1 \<and> Enabled h2 \<and> Key h1 \<noteq> []"
    and "EqualFold (Key h1) (Key h2)"
    and "list_all validHeaderFieldByte (Key h1)"
    and "\<forall>x\<in>set post. \<not> sets_key env (Key h2) x"
    and "\<not> (Body req \<noteq> [] \<and> Value h2 = [] \<and> sets_key env ''Content-Type'' h2)"
    and "outgoing env req = Inr q"
  shows "CanonicalMIMEHeaderKey (Key h1) = CanonicalMIMEHeaderKey (Key h2)
       \<and> ReqHeader q (CanonicalMIMEHeaderKey (Key h2)) = Some [Value h2]
       \<and> (\<forall>k. EqualFold k (Key h2) \<and> k \<noteq> CanonicalMIMEHeaderKey (Key h2) \<longrightarrow> ReqHeader q k = None)
       \<and> Header_Get env (ReqHeader q) (Key h1) = Value h2
       \<and> Header_Get env (ReqHeader q) (Key h2) = Value h2"
proof -
  let ?c = "CanonicalMIMEHeaderKey (Key h2)"
  let ?hdr = "add_headers env (Headers req) Map.empty"
  have c12: "CanonicalMIMEHeaderKey (Key h1) = ?c"
    using assms(4,5) by (rule Canonical_EqualFold)
  have k2: "Key h2 \<noteq> []"
    using assms(3,4) by (auto simp add: EqualFold_def)
  have v2: "list_all validHeaderFieldByte (Key h2)"
    using valid_EqualFold [OF assms(4)] assms(5) by simp
  have "add_headers env ((pre @ h1 # mid) @ h2 # post) Map.empty (CanonicalKey env (Key h2))
          = Some [Value h2]"
    using assms(3,6) k2 by (intro add_headers_last) (simp_all add: sets_key_def)
  then have hdr: "?hdr ?c = Some [Value h2]"
    using assms(1,2) by simp
  have q: "ReqHeader q ?c = Some [Value h2]"
  proof (cases "Body req \<noteq> [] \<and> Header_Get env ?hdr ''Content-Type'' = []")
    case False
    then show ?thesis
      using hdr unfolding outgoing_header [OF assms(8)] by (auto simp add: Let_def)
  next
    case True
    have "CanonicalKey env ''Content-Type'' \<noteq> ?c"
    proof
      assume e: "CanonicalKey env ''Content-Type'' = ?c"
      then have "Header_Get env ?hdr ''Content-Type'' = Value h2"
        using hdr by (simp add: Header_Get_def)
      then show False
        using True assms(1,3,7) e k2 by (simp add: sets_key_def)
    qed
    then show ?thesis
      using hdr True unfolding outgoing_header [OF assms(8)]
      by (simp add: Let_def Header_Set_def)
  qed
  have single: "ReqHeader q k = None" if k: "EqualFold k (Key h2) \<and> k \<noteq> ?c" for k
  proof (rule ccontr)
    assume "ReqHeader q k \<noteq> None"
    then obtain z where "k = CanonicalMIMEHeaderKey z"
      using outgoing_dom [OF assms(8), of k] assms(1) by auto
    then have "CanonicalMIMEHeaderKey k = k"
      by (simp add: Canonical_idem)
    moreover have "list_all validHeaderFieldByte k"
      using k valid_EqualFold [of k "Key h2"] v2 by simp
    then have "CanonicalMIMEHeaderKey k = ?c"
      using k by (intro Canonical_EqualFold) simp_all
    ultimately show False
      using k by simp
  qed
  have "Header_Get env (ReqHeader q) (Key h1) = Value h2"
    and "Header_Get env (ReqHeader q) (Key h2) = Value h2"
    using q c12 assms(1) by (simp_all add: Header_Get_def)
  with c12 q single show ?thesis
    by blast
qed

theorem C10_case_insensitive_keys_witness:
  "out_header net_ok spec_accept_twice ''Accept'' = Some [''*/*'']
   \<and> out_header net_ok spec_accept_twice ''accept'' = None
   \<and> out_header net_ok spec_accept_twice ''ACCEPT'' = None"
proof -
  let ?h1 = "\<lparr>Key = ''accept'', Value = ''text/html'', Enabled = True\<rparr>"
  let ?m = "\<lparr>Key = ''X-Off'', Value = ''0'', Enabled = False\<rparr>"
  let ?h2 = "\<lparr>Key = ''ACCEPT'', Value = ''*/*'', Enabled = True\<rparr>"
  have 1: "CanonicalKey net_ok = CanonicalMIMEHeaderKey"
    by (simp add: net_ok_def)
  have 2: "Headers spec_accept_twice = [] @ ?h1 # [?m] @ ?h2 # []"
    by (simp add: spec_accept_twice_def)
  have 3: "Enabled ?h1 \<and> Enabled ?h2 \<and> Key ?h1 \<noteq> []"
    by simp
  have 4: "EqualFold (Key ?h1) (Key ?h2)"
    by code_simp
  have 5: "list_all validHeaderFieldByte (Key ?h1)"
    by code_simp
  have 6: "\<forall>x\<in>set []. \<not> sets_key net_ok (Key ?h2) x"
    by simp
  have 7: "\<not> (Body spec_accept_twice \<noteq> [] \<and> Value ?h2 = [] \<and> sets_key net_ok ''Content-Type'' ?h2)"
    by (simp add: spec_accept_twice_def)
  obtain q where 8: "outgoing net_ok spec_accept_twice = Inr q"
    by (simp add: outgoing_def http_NewRequest_def net_ok_def spec_accept_twice_def
        HasPrefix_def Let_def)
  have c: "CanonicalMIMEHeaderKey ''ACCEPT'' = ''Accept''"
    by code_simp
  have f: "EqualFold ''accept'' ''ACCEPT'' \<and> EqualFold ''ACCEPT'' ''ACCEPT''"
    by code_simp
  from C10_case_insensitive_keys [OF 1 2 3 4 5 6 7 8]
  have "ReqHeader q (CanonicalMIMEHeaderKey ''ACCEPT'') = Some [''*/*'']"
    and "\<forall>k. EqualFold k ''ACCEPT'' \<and> k \<noteq> CanonicalMIMEHeaderKey ''ACCEPT'' \<longrightarrow> ReqHeader q k = None"
    by simp_all
  then show ?thesis
    using f by (simp add: out_header_def 8 c)
qed

text \<open>
  The claim as stated fails in three ways: keys with a space are not canonical and stay two
  headers; a third entry of the same key overrides the later of two; and an empty
  \<open>Content-Type\<close> entry after a non-empty one gives way to the default.
\<close>

theorem C10_keys_counterexample:
  "out_header net_ok spec_space_keys ''x y'' = Some [''1'']
   \<and> out_header net_ok spec_space_keys ''X Y'' = Some [''2'']
   \<and> out_header net_ok spec_three_keys ''A'' = Some [''3'']
   \<and> out_header net_ok spec_two_content_types ''Content-Type'' = Some [''application/json'']"
  by code_simp

section \<open>The sequences returned by the store\<close>

lemma apply_mutation_frame:
  assumes "writes_element_of r w" and "apply_mutation w m = Some m'"
  shows "header_arrays m' = header_arrays m \<and> string_maps m' = string_maps m
       \<and> next_addr m' = next_addr m
       \<and> (\<forall>b. b \<noteq> sl_array r \<longrightarrow>
             template_arrays m' b = template_arrays m b \<and> history_arrays m' b = history_arrays m b)"
  using assms by (cases w) (auto split: if_splits)

lemma apply_mutations_frame:
  assumes "\<forall>w\<in>set ws. writes_element_of r w" and "apply_mutations ws m = Some m'"
  shows "header_arrays m' = header_arrays m \<and> string_maps m' = string_maps m
       \<and> next_addr m' = next_addr m
       \<and> (\<forall>b. b \<noteq> sl_array r \<longrightarrow>
             template_arrays m' b = template_arrays m b \<and> history_arrays m' b = history_arrays m b)"
  using assms
proof (induction ws arbitrary: m)
  case Nil
  then show ?case by simp
next
  case (Cons w ws)
  from Cons.prems obtain m1 where 1: "apply_mutation w m = Some m1"
    and 2: "apply_mutations ws m1 = Some m'"
    by (auto split: option.splits)
  have w: "writes_element_of r w" and ws: "\<forall>w\<in>set ws. writes_element_of r w"
    using Cons.prems by simp_all
  from apply_mutation_frame [OF w 1] Cons.IH [OF ws 2] show ?case
    by simp
qed

lemma elems_copy_fresh:
  assumes "sl_array src \<noteq> a" and "sl_len src \<le> length (arrs (sl_array src))"
  shows "elems (copy_into (arrs(a := replicate (sl_len src) z))
                  \<lparr>sl_array = a, sl_len = sl_len src\<rparr> src) \<lparr>sl_array = a, sl_len = sl_len src\<rparr>
           = elems arrs src"
  using assms by (simp add: elems_def copy_into_def Let_def min_def)

lemma copy_fresh_others:
  assumes "b \<noteq> a"
  shows "copy_into (arrs(a := xs)) \<lparr>sl_array = a, sl_len = n\<rparr> src b = arrs b"
  using assms by (simp add: copy_into_def Let_def)

text \<open>
  \<open>Clone\<close> is a deep copy: the headers of the clone are in a new array, they are the
  headers of the original, and the original is left as it was.
\<close>

lemma CloneM_deep_copy:
  assumes "sl_array (HeadersM r) < next_addr m"
    and "sl_len (HeadersM r) \<le> length (header_arrays m (sl_array (HeadersM r)))"
  shows "sl_array (HeadersM (fst (CloneM r m))) = next_addr m"
    and "view_request (snd (CloneM r m)) (fst (CloneM r m)) = view_request m r"
    and "view_request (snd (CloneM r m)) r = view_request m r"
proof -
  have ne: "sl_array (HeadersM r) \<noteq> next_addr m"
    using assms(1) by simp
  have e: "elems (copy_into ((header_arrays m)(next_addr m := replicate (sl_len (HeadersM r)) zero_header))
                   \<lparr>sl_array = next_addr m, sl_len = sl_len (HeadersM r)\<rparr> (HeadersM r))
             \<lparr>sl_array = next_addr m, sl_len = sl_len (HeadersM r)\<rparr>
           = elems (header_arrays m) (HeadersM r)"
    using elems_copy_fresh [of "HeadersM r" "next_addr m" "header_arrays m" zero_header] ne assms(2)
    by simp
  show "sl_array (HeadersM (fst (CloneM r m))) = next_addr m"
    by (simp add: CloneM_def Let_def)
  show "view_request (snd (CloneM r m)) (fst (CloneM r m)) = view_request m r"
    using e by (simp add: CloneM_def Let_def view_request_def)
  have "copy_into ((header_arrays m)(next_addr m := replicate (sl_len (HeadersM r)) zero_header))
          \<lparr>sl_array = next_addr m, sl_len = sl_len (HeadersM r)\<rparr> (HeadersM r) (sl_array (HeadersM r))
        = header_arrays m (sl_array (HeadersM r))"
    using ne by (rule copy_fresh_others)
  then show "view_request (snd (CloneM r m)) r = view_request m r"
    by (simp add: CloneM_def Let_def view_request_def elems_def)
qed

lemma GetTemplatesM_frame:
  assumes "wf_store s m" and "GetTemplatesM s m = (r, m1)"
  shows "sl_array r = next_addr m" and "next_addr m1 = Suc (next_addr m)"
    and "header_arrays m1 = header_arrays m" and "string_maps m1 = string_maps m"
    and "history_arrays m1 = history_arrays m"
    and "\<forall>b. b \<noteq> next_addr m \<longrightarrow> template_arrays m1 b = template_arrays m b"
    and "elems (template_arrays m1) r = elems (template_arrays m) (templatesM s)"
proof -
  have ne: "sl_array (templatesM s) \<noteq> next_addr m"
    and le: "sl_len (templatesM s) \<le> length (template_arrays m (sl_array (templatesM s)))"
    using assms(1) by (simp_all add: wf_store_def)
  have r: "r = \<lparr>sl_array = next_addr m, sl_len = sl_len (templatesM s)\<rparr>"
    and m1: "m1 = m\<lparr>template_arrays :=
                     copy_into ((template_arrays m)
                       (next_addr m := replicate (sl_len (templatesM s)) zero_templateM))
                       \<lparr>sl_array = next_addr m, sl_len = sl_len (templatesM s)\<rparr> (templatesM s),
                   next_addr := Suc (next_addr m)\<rparr>"
    using assms(2) by (auto simp add: GetTemplatesM_def Let_def)
  show "sl_array r = next_addr m" "next_addr m1 = Suc (next_addr m)"
    "header_arrays m1 = header_arrays m" "string_maps m1 = string_maps m"
    "history_arrays m1 = history_arrays m"
    by (simp_all add: r m1)
  show "\<forall>b. b \<noteq> next_addr m \<longrightarrow> template_arrays m1 b = template_arrays m b"
    by (simp add: m1 copy_fresh_others)
  show "elems (template_arrays m1) r = elems (template_arrays m) (templatesM s)"
    using elems_copy_fresh [of "templatesM s" "next_addr m" "template_arrays m" zero_templateM] ne le
    by (simp add: r m1)
qed

lemma GetHistoryM_frame:
  assumes "wf_store s m" and "GetHistoryM s m = (r, m1)"
  shows "sl_array r = next_addr m" and "next_addr m1 = Suc (next_addr m)"
    and "header_arrays m1 = header_arrays m" and "string_maps m1 = string_maps m"
    and "template_arrays m1 = template_arrays m"
    and "\<forall>b. b \<noteq> next_addr m \<longrightarrow> history_arrays m1 b = history_arrays m b"
    and "elems (history_arrays m1) r = elems (history_arrays m) (historyM s)"
proof -
  have ne: "sl_array (historyM s) \<noteq> next_addr m"
    and le: "sl_len (historyM s) \<le> length (history_arrays m (sl_array (historyM s)))"
    using assms(1) by (simp_all add: wf_store_def)
  have r: "r = \<lparr>sl_array = next_addr m, sl_len = sl_len (historyM s)\<rparr>"
    and m1: "m1 = m\<lparr>history_arrays :=
                     copy_into ((history_arrays m)
                       (next_addr m := replicate (sl_len (historyM s)) zero_itemM))
                       \<lparr>sl_array = next_addr m, sl_len = sl_len (historyM s)\<rparr> (historyM s),
                   next_addr := Suc (next_addr m)\<rparr>"
    using assms(2) by (auto simp add: GetHistoryM_def Let_def)
  show "sl_array r = next_addr m" "next_addr m1 = Suc (next_addr m)"
    "header_arrays m1 = header_arrays m" "string_maps m1 = string_maps m"
    "template_arrays m1 = template_arrays m"
    by (simp_all add: r m1)
  show "\<forall>b. b \<noteq> next_addr m \<longrightarrow> history_arrays m1 b = history_arrays m b"
    by (simp add: m1 copy_fresh_others)
  show "elems (history_arrays m1) r = elems (history_arrays m) (historyM s)"
    using elems_copy_fresh [of "historyM s" "next_addr m" "history_arrays m" zero_itemM] ne le
    by (simp add: r m1)
qed

lemma view_templates_cong:
  assumes "header_arrays m' = header_arrays m"
    and "elems (template_arrays m') sl' = elems (template_arrays m) sl"
  shows "view_templates m' sl' = view_templates m sl"
proof -
  have "view_template m' = view_template m"
    by (rule ext) (simp add: view_template_def view_request_def assms(1))
  then show ?thesis
    by (simp add: view_templates_def assms(2))
qed

lemma view_history_cong:
  assumes "header_arrays m' = header_arrays m" and "string_maps m' = string_maps m"
    and "elems (history_arrays m') sl' = elems (history_arrays m) sl"
  shows "view_history m' sl' = view_history m sl"
proof -
  have "view_item m' = view_item m"
    by (rule ext) (simp add: view_item_def view_request_def view_response_def assms(1,2))
  then show ?thesis
    by (simp add: view_history_def assms(3))
qed

lemma wf_store_frame:
  assumes "wf_store s m" and "next_addr m \<le> next_addr m'"
    and "template_arrays m' (sl_array (templatesM s)) = template_arrays m (sl_array (templatesM s))"
    and "history_arrays m' (sl_array (historyM s)) = history_arrays m (sl_array (historyM s))"
  shows "wf_store s m'"
  using assms by (simp add: wf_store_def)


lemma elems_cong: "arrs' (sl_array sl) = arrs (sl_array sl) \<Longrightarrow> elems arrs' sl = elems arrs sl"
  by (simp add: elems_def)




lemma templates_after_writes:
  assumes wf: "wf_store s m" and G: "GetTemplatesM s m = (r, m1)"
    and W: "\<forall>w\<in>set ws. writes_element_of r w" and A: "apply_mutations ws m1 = Some m2"
  shows "header_arrays m2 = header_arrays m" and "string_maps m2 = string_maps m"
    and "template_arrays m2 (sl_array (templatesM s)) = template_arrays m (sl_array (templatesM s))"
    and "history_arrays m2 (sl_array (historyM s)) = history_arrays m (sl_array (historyM s))"
    and "next_addr m2 = Suc (next_addr m)"
proof -
  note g = GetTemplatesM_frame [OF wf G]
  note fr = apply_mutations_frame [OF W A]
  have net: "sl_array (templatesM s) \<noteq> sl_array r" and neh: "sl_array (historyM s) \<noteq> sl_array r"
    using wf g(1) by (simp_all add: wf_store_def)
  show "header_arrays m2 = header_arrays m"
    using fr g(3) by simp
  show "string_maps m2 = string_maps m"
    using fr g(4) by simp
  have "template_arrays m2 (sl_array (templatesM s)) = template_arrays m1 (sl_array (templatesM s))"
    using fr net by blast
  also have "\<dots> = template_arrays m (sl_array (templatesM s))"
    using g(6) g(1) net by simp
  finally show "template_arrays m2 (sl_array (templatesM s)) = template_arrays m (sl_array (templatesM s))" .
  have "history_arrays m2 (sl_array (historyM s)) = history_arrays m1 (sl_array (historyM s))"
    using fr neh by blast
  then show "history_arrays m2 (sl_array (historyM s)) = history_arrays m (sl_array (historyM s))"
    using g(5) by simp
  show "next_addr m2 = Suc (next_addr m)"
    using fr g(2) by simp
qed


lemma history_after_writes:
  assumes wf: "wf_store s m" and G: "GetHistoryM s m = (r, m1)"
    and W: "\<forall>w\<in>set ws. writes_element_of r w" and A: "apply_mutations ws m1 = Some m2"
  shows "header_arrays m2 = header_arrays m" and "string_maps m2 = string_maps m"
    and "template_arrays m2 (sl_array (templatesM s)) = template_arrays m (sl_array (templatesM s))"
    and "history_arrays m2 (sl_array (historyM s)) = history_arrays m (sl_array (historyM s))"
    and "next_addr m2 = Suc (next_addr m)"
proof -
  note g = GetHistoryM_frame [OF wf G]
  note fr = apply_mutations_frame [OF W A]
  have net: "sl_array (templatesM s) \<noteq> sl_array r" and neh: "sl_array (historyM s) \<noteq> sl_array r"
    using wf g(1) by (simp_all add: wf_store_def)
  show "header_arrays m2 = header_arrays m"
    using fr g(3) by simp
  show "string_maps m2 = string_maps m"
    using fr g(4) by simp
  have "history_arrays m2 (sl_array (historyM s)) = history_arrays m1 (sl_array (historyM s))"
    using fr neh by blast
  also have "\<dots> = history_arrays m (sl_array (historyM s))"
    using g(6) g(1) neh by simp
  finally show "history_arrays m2 (sl_array (historyM s)) = history_arrays m (sl_array (historyM s))" .
  have "template_arrays m2 (sl_array (templatesM s)) = template_arrays m1 (sl_array (templatesM s))"
    using fr net by blast
  then show "template_arrays m2 (sl_array (templatesM s)) = template_arrays m (sl_array (templatesM s))"
    using g(5) by simp
  show "next_addr m2 = Suc (next_addr m)"
    using fr g(2) by simp
qed

lemma store_views_cong:
  assumes "header_arrays m2 = header_arrays m" and "string_maps m2 = string_maps m"
    and "template_arrays m2 (sl_array (templatesM s)) = template_arrays m (sl_array (templatesM s))"
    and "history_arrays m2 (sl_array (historyM s)) = history_arrays m (sl_array (historyM s))"
    and "next_addr m2 = Suc (next_addr m)" and "wf_store s m"
  shows "view_templates m2 (templatesM s) = view_templates m (templatesM s)"
    and "view_history m2 (historyM s) = view_history m (historyM s)"
    and "wf_store s m2"
proof -
  show "view_templates m2 (templatesM s) = view_templates m (templatesM s)"
    using assms(1) elems_cong [of "template_arrays m2" "templatesM s" "template_arrays m", OF assms(3)]
    by (rule view_templates_cong)
  show "view_history m2 (historyM s) = view_history m (historyM s)"
    using assms(1,2) elems_cong [of "history_arrays m2" "historyM s" "history_arrays m", OF assms(4)]
    by (rule view_history_cong)
  show "wf_store s m2"
    using assms(6) _ assms(3,4) by (rule wf_store_frame) (simp add: assms(5))
qed

lemma GetTemplatesM_view:
  assumes "wf_store s m"
  shows "view_templates (snd (GetTemplatesM s m)) (fst (GetTemplatesM s m))
           = view_templates m (templatesM s)"
proof -
  obtain r m1 where g: "GetTemplatesM s m = (r, m1)"
    by (cases "GetTemplatesM s m")
  have "view_templates m1 r = view_templates m (templatesM s)"
    using GetTemplatesM_frame(3,7) [OF assms g] by (rule view_templates_cong)
  then show ?thesis
    by (simp add: g)
qed

lemma GetHistoryM_view:
  assumes "wf_store s m"
  shows "view_history (snd (GetHistoryM s m)) (fst (GetHistoryM s m))
           = view_history m (historyM s)"
proof -
  obtain r m1 where g: "GetHistoryM s m = (r, m1)"
    by (cases "GetHistoryM s m")
  have "view_history m1 r = view_history m (historyM s)"
    using GetHistoryM_frame(3,4,7) [OF assms g] by (rule view_history_cong)
  then show ?thesis
    by (simp add: g)
qed

text \<open>
  C2 (as amended). The sequence that \<open>GetTemplates\<close> or \<open>GetHistory\<close> returns is a new
  array with the content of the store's: whatever the caller assigns to its elements (and so
  to any field of an element), the content of the store stays what it was, and a later call
  lists that same content again.
\<close>

theorem C2_copy_of_the_sequence:
  assumes "wf_store s m"
  shows "(GetTemplatesM s m = (r, m1) \<and> (\<forall>w\<in>set ws. writes_element_of r w)
          \<and> apply_mutations ws m1 = Some m2 \<longrightarrow>
            view_templates m1 r = view_templates m (templatesM s)
          \<and> view_templates m2 (templatesM s) = view_templates m (templatesM s)
          \<and> view_history m2 (historyM s) = view_history m (historyM s)
          \<and> view_templates (snd (GetTemplatesM s m2)) (fst (GetTemplatesM s m2))
              = view_templates m (templatesM s))
       \<and> (GetHistoryM s m = (r, m1) \<and> (\<forall>w\<in>set ws. writes_element_of r w)
          \<and> apply_mutations ws m1 = Some m2 \<longrightarrow>
            view_history m1 r = view_history m (historyM s)
          \<and> view_history m2 (historyM s) = view_history m (historyM s)
          \<and> view_templates m2 (templatesM s) = view_templates m (templatesM s)
          \<and> view_history (snd (GetHistoryM s m2)) (fst (GetHistoryM s m2))
              = view_history m (historyM s))"
proof (intro conjI impI)
  assume a: "GetTemplatesM s m = (r, m1) \<and> (\<forall>w\<in>set ws. writes_element_of r w)
          \<and> apply_mutations ws m1 = Some m2"
  then have G: "GetTemplatesM s m = (r, m1)" and W: "\<forall>w\<in>set ws. writes_element_of r w"
    and A: "apply_mutations ws m1 = Some m2"
    by blast+
  note v = store_views_cong [OF templates_after_writes [OF assms G W A] assms]
  show "view_templates m1 r = view_templates m (templatesM s)"
    using GetTemplatesM_view [OF assms] by (simp add: G)
  show "view_templates m2 (templatesM s) = view_templates m (templatesM s)"
    by (rule v(1))
  show "view_history m2 (historyM s) = view_history m (historyM s)"
    by (rule v(2))
  show "view_templates (snd (GetTemplatesM s m2)) (fst (GetTemplatesM s m2))
              = view_templates m (templatesM s)"
    using GetTemplatesM_view [OF v(3)] v(1) by simp
next
  assume a: "GetHistoryM s m = (r, m1) \<and> (\<forall>w\<in>set ws. writes_element_of r w)
          \<and> apply_mutations ws m1 = Some m2"
  then have G: "GetHistoryM s m = (r, m1)" and W: "\<forall>w\<in>set ws. writes_element_of r w"
    and A: "apply_mutations ws m1 = Some m2"
    by blast+
  note v = store_views_cong [OF history_after_writes [OF assms G W A] assms]
  show "view_history m1 r = view_history m (historyM s)"
    using GetHistoryM_view [OF assms] by (simp add: G)
  show "view_templates m2 (templatesM s) = view_templates m (templatesM s)"
    by (rule v(1))
  show "view_history m2 (historyM s) = view_history m (historyM s)"
    by (rule v(2))
  show "view_history (snd (GetHistoryM s m2)) (fst (GetHistoryM s m2))
              = view_history m (historyM s)"
    using GetHistoryM_view [OF v(3)] v(2) by simp
qed

theorem C2_copy_of_the_sequence_witness:
  "wf_store store_one mem_one
   \<and> view_templates
        (the (apply_mutations [SetTemplate (fst (GetTemplatesM store_one mem_one)) 0 zero_templateM]
                (snd (GetTemplatesM store_one mem_one))))
        (templatesM store_one)
       = view_templates mem_one (templatesM store_one)
   \<and> view_history
        (the (apply_mutations [SetHistoryItem (fst (GetHistoryM store_one mem_one)) 0 zero_itemM]
                (snd (GetHistoryM store_one mem_one))))
        (historyM store_one)
       = view_history mem_one (historyM store_one)"
proof -
  have wf: "wf_store store_one mem_one"
    by (simp add: wf_store_def store_one_def mem_one_def)
  let ?r = "fst (GetTemplatesM store_one mem_one)"
  let ?m1 = "snd (GetTemplatesM store_one mem_one)"
  obtain m2 where a: "apply_mutations [SetTemplate ?r 0 zero_templateM] ?m1 = Some m2"
    by (simp add: GetTemplatesM_def store_one_def Let_def)
  have "GetTemplatesM store_one mem_one = (?r, ?m1)
        \<and> (\<forall>w\<in>set [SetTemplate ?r 0 zero_templateM]. writes_element_of ?r w)
        \<and> apply_mutations [SetTemplate ?r 0 zero_templateM] ?m1 = Some m2"
    using a by simp
  with C2_copy_of_the_sequence [OF wf, of ?r ?m1 "[SetTemplate ?r 0 zero_templateM]" m2]
  have 1: "view_templates m2 (templatesM store_one) = view_templates mem_one (templatesM store_one)"
    by blast
  let ?q = "fst (GetHistoryM store_one mem_one)"
  let ?n1 = "snd (GetHistoryM store_one mem_one)"
  obtain n2 where b: "apply_mutations [SetHistoryItem ?q 0 zero_itemM] ?n1 = Some n2"
    by (simp add: GetHistoryM_def store_one_def Let_def)
  have "GetHistoryM store_one mem_one = (?q, ?n1)
        \<and> (\<forall>w\<in>set [SetHistoryItem ?q 0 zero_itemM]. writes_element_of ?q w)
        \<and> apply_mutations [SetHistoryItem ?q 0 zero_itemM] ?n1 = Some n2"
    using b by simp
  with C2_copy_of_the_sequence [OF wf, of ?q ?n1 "[SetHistoryItem ?q 0 zero_itemM]" n2]
  have 2: "view_history n2 (historyM store_one) = view_history mem_one (historyM store_one)"
    by blast
  from wf 1 2 show ?thesis
    unfolding a b by simp
qed

text \<open>
  The claim as stated, nested fields included: the caller assigns the first header of the
  first listed template, and the store's own template and every later listing show the new
  header.
\<close>

theorem C2_nested_write_counterexample:
  "wf_store store_one mem_one
   \<and> stored_headers store_one mem_one = [[accept_any]]
   \<and> listed_headers store_one mem_one = [[accept_any]]
   \<and> \<not> Option.is_none (get_templates_set_header store_one mem_one 0 0 accept_html)
   \<and> stored_headers store_one (the (get_templates_set_header store_one mem_one 0 0 accept_html))
       = [[accept_html]]
   \<and> listed_headers store_one (the (get_templates_set_header store_one mem_one 0 0 accept_html))
       = [[accept_html]]"
  by code_simp

section \<open>Formatting helpers: results\<close>

text \<open>
  C9. With a JSON library that rejects the empty input and \<open>not json\<close> and that can encode
  what it has decoded: \<open>FormatJSON\<close> always gives a string; for an input that parses it is
  the encoding of the decoded value with the empty prefix and an indent of two spaces; for
  an input that does not parse it is the input; \<open>IsJSON\<close> holds exactly when the input
  parses, and not for \<open>not json\<close>.
\<close>

theorem C9_FormatJSON_IsJSON:
  assumes "\<exists>e. Unmarshal env [] = Inl e"
    and "\<forall>s v. Unmarshal env s = Inr v \<longrightarrow> (\<exists>out. MarshalIndent env v [] ''  '' = Inr out)"
    and "\<exists>e. Unmarshal env ''not json'' = Inl e"
  shows "(\<forall>v. Unmarshal env input = Inr v \<longrightarrow>
             MarshalIndent env v [] ''  '' = Inr (FormatJSON env input))
       \<and> ((\<exists>e. Unmarshal env input = Inl e) \<longrightarrow> FormatJSON env input = input)
       \<and> IsJSON env input = (\<exists>v. Unmarshal env input = Inr v)
       \<and> \<not> IsJSON env ''not json''
       \<and> FormatJSON env ''not json'' = ''not json''"
proof (intro conjI allI impI)
  fix v
  assume v: "Unmarshal env input = Inr v"
  then have "input \<noteq> []"
    using assms(1) by auto
  moreover obtain out where "MarshalIndent env v [] ''  '' = Inr out"
    using assms(2) v by blast
  ultimately show "MarshalIndent env v [] ''  '' = Inr (FormatJSON env input)"
    using v by (simp add: FormatJSON_def)
next
  assume "\<exists>e. Unmarshal env input = Inl e"
  then show "FormatJSON env input = input"
    by (auto simp add: FormatJSON_def)
next
  show "IsJSON env input = (\<exists>v. Unmarshal env input = Inr v)"
    by (simp add: IsJSON_def split: sum.splits)
  show "\<not> IsJSON env ''not json''"
    using assms(3) by (auto simp add: IsJSON_def)
  show "FormatJSON env ''not json'' = ''not json''"
    using assms(3) by (auto simp add: FormatJSON_def)
qed

theorem C9_FormatJSON_IsJSON_witness:
  "FormatJSON json_demo ''[1,2]''
     = ''['' @ [CHR 0x0A] @ ''  1,'' @ [CHR 0x0A] @ ''  2'' @ [CHR 0x0A] @ '']''
   \<and> IsJSON json_demo ''[1,2]''
   \<and> FormatJSON json_demo ''not json'' = ''not json''
   \<and> \<not> IsJSON json_demo ''not json''"
proof -
  have 1: "\<exists>e. Unmarshal json_demo [] = Inl e"
    by (simp add: json_demo_def)
  have 2: "\<forall>s v. Unmarshal json_demo s = Inr v \<longrightarrow>
             (\<exists>out. MarshalIndent json_demo v [] ''  '' = Inr out)"
    by (auto simp add: json_demo_def split: if_splits)
  have 3: "\<exists>e. Unmarshal json_demo ''not json'' = Inl e"
    by (simp add: json_demo_def)
  have u: "Unmarshal json_demo ''[1,2]'' = Inr [1, 2]"
    by (simp add: json_demo_def)
  have m: "MarshalIndent json_demo [1, 2] [] ''  ''
             = Inr (''['' @ [CHR 0x0A] @ ''  1,'' @ [CHR 0x0A] @ ''  2'' @ [CHR 0x0A] @ '']'')"
    by (simp add: json_demo_def)
  from C9_FormatJSON_IsJSON [OF 1 2 3, of "''[1,2]''"] u m
  have "FormatJSON json_demo ''[1,2]''
          = ''['' @ [CHR 0x0A] @ ''  1,'' @ [CHR 0x0A] @ ''  2'' @ [CHR 0x0A] @ '']''"
    and "IsJSON json_demo ''[1,2]''"
    by auto
  moreover from C9_FormatJSON_IsJSON [OF 1 2 3, of "''[1,2]''"]
  have "FormatJSON json_demo ''not json'' = ''not json''" and "\<not> IsJSON json_demo ''not json''"
    by blast+
  ultimately show ?thesis
    by blast
qed

section \<open>History: prepend and cap\<close>

lemma history_AddHistory:
  "history (snd (AddHistory env i n rq rs s))
     = take 50 (\<lparr>HID = i, HRequest = Clone rq, HResponse = rs, Timestamp = n\<rparr> # history s)"
  by (simp add: AddHistory_def Let_def maxHistoryItems_def split: option.splits)

lemma take_append_take: "take n (xs @ take n ys) = take n (xs @ ys)"
  by (simp add: min_def)

lemma history_add_all_Cons:
  "history (add_all env (c # cs) s) = take 50 (rev (map item_of (c # cs)) @ history s)"
proof (induction cs arbitrary: c s)
  case Nil
  show ?case
    by (simp add: history_AddHistory item_of_def)
next
  case (Cons d ds)
  let ?s1 = "snd (AddHistory env (call_id c) (call_now c) (call_req c) (call_resp c) s)"
  have "history (add_all env (c # d # ds) s) = history (add_all env (d # ds) ?s1)"
    by simp
  also have "\<dots> = take 50 (rev (map item_of (d # ds)) @ history ?s1)"
    by (rule Cons.IH)
  also have "history ?s1 = take 50 (item_of c # history s)"
    by (simp add: history_AddHistory item_of_def)
  also have "take 50 (rev (map item_of (d # ds)) @ take 50 (item_of c # history s))
               = take 50 (rev (map item_of (d # ds)) @ item_of c # history s)"
    by (rule take_append_take)
  finally show ?case
    by simp
qed

text \<open>
  C6. Every \<open>AddHistory\<close> call puts its new entry in front of the history and keeps the
  first 50 entries of the result, so the entries dropped are the oldest ones at the tail; the
  entry is new whatever the history holds (no lookup is made). A non-empty sequence of calls
  leaves the 50 newest of the added and the earlier entries, newest first. Sixty calls on
  an empty history leave exactly 50 entries: the last 50 added, newest first.
\<close>

theorem C6_AddHistory_prepends_and_caps:
  "history (snd (AddHistory env i n rq rs s))
     = take 50 (\<lparr>HID = i, HRequest = Clone rq, HResponse = rs, Timestamp = n\<rparr> # history s)
   \<and> length (history (snd (AddHistory env i n rq rs s))) \<le> 50
   \<and> (cs \<noteq> [] \<longrightarrow>
        history (add_all env cs s) = take 50 (rev (map item_of cs) @ history s))
   \<and> (length cs = 60 \<and> history s = [] \<longrightarrow>
        length (history (add_all env cs s)) = 50
        \<and> history (add_all env cs s) = rev (map item_of (drop 10 cs)))"
proof (intro conjI impI)
  show "history (snd (AddHistory env i n rq rs s))
     = take 50 (\<lparr>HID = i, HRequest = Clone rq, HResponse = rs, Timestamp = n\<rparr> # history s)"
    by (rule history_AddHistory)
  show "length (history (snd (AddHistory env i n rq rs s))) \<le> 50"
    by (simp add: history_AddHistory)
next
  assume "cs \<noteq> []"
  then obtain c ds where "cs = c # ds"
    by (cases cs) auto
  then show "history (add_all env cs s) = take 50 (rev (map item_of cs) @ history s)"
    using history_add_all_Cons [of env c ds s] by simp
next
  assume a: "length cs = 60 \<and> history s = []"
  then obtain c ds where cs: "cs = c # ds"
    by (cases cs) auto
  have h: "history (add_all env cs s) = take 50 (rev (map item_of cs))"
    using history_add_all_Cons [of env c ds s] a cs by simp
  show "length (history (add_all env cs s)) = 50"
    using a by (simp add: h)
  have "take 50 (rev (map item_of cs)) = rev (drop (length (map item_of cs) - 50) (map item_of cs))"
    by (simp only: take_rev)
  also have "\<dots> = rev (map item_of (drop 10 cs))"
    using a by (simp add: drop_map)
  finally show "history (add_all env cs s) = rev (map item_of (drop 10 cs))"
    using h by simp
qed

theorem C6_AddHistory_witness:
  "length (history (add_all env_ok (map numbered_call [0..<60]) empty_store)) = 50
   \<and> map Timestamp (history (add_all env_ok (map numbered_call [0..<60]) empty_store))
       = rev (map int [10..<60])"
proof -
  have l: "length (map numbered_call [0..<60]) = 60 \<and> history empty_store = []"
    by (simp add: empty_store_def)
  from C6_AddHistory_prepends_and_caps [of env_ok i n rq rs empty_store "map numbered_call [0..<60]"] l
  have "length (history (add_all env_ok (map numbered_call [0..<60]) empty_store)) = 50"
    and "history (add_all env_ok (map numbered_call [0..<60]) empty_store)
           = rev (map item_of (drop 10 (map numbered_call [0..<60])))"
    by blast+
  then show ?thesis
    by (simp add: drop_map item_of_def numbered_call_def)
qed

end
